theory Spec2Isabelle
  imports Complex_Main "HOL-Library.Product_Lexorder"
begin

section \<open>Data model\<close>

text \<open>
  The program passes Python dictionaries around. A raw waypoint is a dictionary in which
  any of the keys \<open>x\<close>, \<open>y\<close>, \<open>z\<close>, \<open>time\<close> may be absent, so every field is optional and
  a read of an absent key is the error \<open>KeyError\<close>. All other dictionaries that carry a
  position (normalized waypoints, interpolated positions, sampled trajectory points)
  have the keys \<open>time\<close>, \<open>x\<close>, \<open>y\<close>, \<open>z\<close>; only sampled trajectory points also have
  \<open>speed\<close> and \<open>heading\<close>, which are therefore optional in the record \<open>point\<close>.

  Python floats are modelled by the real numbers: rounding, infinities and NaN are outside
  the model, with one exception. The two threshold products of the severity classification,
  \<open>safety_buffer * 0.5\<close> and \<open>safety_buffer * 0.8\<close>, are rounded to binary64 as the
  machine rounds them, because the severity that the program emits at a threshold depends
  on that rounding. Raised exceptions are values of the type \<open>py_error\<close>, on the left of
  a sum.
\<close>

datatype py_error = ZeroDivisionError | KeyError | IndexError | ValueError

record waypoint =
  wp_x :: "real option"
  wp_y :: "real option"
  wp_z :: "real option"
  wp_time :: "real option"

record point =
  pt_time :: real
  pt_x :: real
  pt_y :: real
  pt_z :: real
  pt_speed :: "real option"
  pt_heading :: "real option"

section \<open>Python primitives\<close>

definition bind_err :: "py_error + 'a \<Rightarrow> ('a \<Rightarrow> py_error + 'b) \<Rightarrow> py_error + 'b" where
  "bind_err m f = (case m of Inl e \<Rightarrow> Inl e | Inr a \<Rightarrow> f a)"

text \<open>A \<open>for\<close> loop that appends one computed element per item and stops at the first raise.\<close>

fun map_err :: "('a \<Rightarrow> py_error + 'b) \<Rightarrow> 'a list \<Rightarrow> py_error + 'b list" where
  "map_err f [] = Inr []"
| "map_err f (a # as) =
     bind_err (f a) (\<lambda>b. bind_err (map_err f as) (\<lambda>bs. Inr (b # bs)))"

text \<open>\<open>d[key]\<close> on a dictionary whose key may be absent.\<close>

definition getitem :: "'a option \<Rightarrow> py_error + 'a" where
  "getitem v = (case v of None \<Rightarrow> Inl KeyError | Some a \<Rightarrow> Inr a)"

text \<open>\<open>d.get(key, default)\<close>.\<close>

definition get_default :: "'a option \<Rightarrow> 'a \<Rightarrow> 'a" where
  "get_default v d = (case v of None \<Rightarrow> d | Some a \<Rightarrow> a)"

text \<open>True division \<open>a / b\<close>, which raises on a zero divisor.\<close>

definition py_div :: "real \<Rightarrow> real \<Rightarrow> py_error + real" where
  "py_div a b = (if b = 0 then Inl ZeroDivisionError else Inr (a / b))"

text \<open>\<open>max(iterable)\<close>: keeps the first largest element, raises on an empty iterable.\<close>

definition py_max :: "real list \<Rightarrow> py_error + real" where
  "py_max ts = (case ts of [] \<Rightarrow> Inl ValueError
                | t # rest \<Rightarrow> Inr (fold (\<lambda>v m. if m < v then v else m) rest t))"

text \<open>\<open>math.atan2(y, x)\<close> on the reals (no signed zero).\<close>

definition atan2 :: "real \<Rightarrow> real \<Rightarrow> real" where
  "atan2 y x =
     (if 0 < x then arctan (y / x)
      else if x < 0 then (if 0 \<le> y then arctan (y / x) + pi else arctan (y / x) - pi)
      else if 0 < y then pi / 2
      else if y < 0 then - (pi / 2)
      else 0)"

text \<open>
  Float multiplication. A product of two floats is the exact product rounded to the nearest
  binary64 number, ties to the even significand: 53 significant bits, exponents from
  \<open>-1022\<close> up, subnormal numbers included (below \<open>2 powi -1022\<close> the spacing stays
  \<open>2 powi -1074\<close>). Overflow to infinity is outside the model. The literals \<open>0.5\<close> and
  \<open>0.8\<close> of the source denote the floats nearest to one half and to four fifths.
\<close>

definition round_half_even :: "real \<Rightarrow> int" where
  "round_half_even y =
     (let f = \<lfloor>y\<rfloor>; r = y - of_int f
      in if r < 1 / 2 then f else if 1 / 2 < r then f + 1 else if even f then f else f + 1)"

definition float_exponent :: "real \<Rightarrow> int" where
  "float_exponent x = max \<lfloor>log 2 \<bar>x\<bar>\<rfloor> (- 1022)"

definition float_ulp :: "real \<Rightarrow> real" where
  "float_ulp x = power_int 2 (float_exponent x - 52)"

definition round_float :: "real \<Rightarrow> real" where
  "round_float x =
     (if x = 0 then 0 else of_int (round_half_even (x / float_ulp x)) * float_ulp x)"

definition float_mul :: "real \<Rightarrow> real \<Rightarrow> real" where
  "float_mul a b = round_float (a * b)"

definition float_0_5 :: real where
  "float_0_5 = round_float (1 / 2)"

definition float_0_8 :: real where
  "float_0_8 = round_float (4 / 5)"

section \<open>Trajectory calculator (trajectory_calculator.py)\<close>

definition default_speed :: real where "default_speed = 15"
definition max_speed :: real where "max_speed = 30"
definition min_speed :: real where "min_speed = 5"

subsection \<open>\<open>_normalize_waypoint_times\<close>\<close>

text \<open>The body of the loop over waypoints that all carry an explicit \<open>time\<close>.\<close>

definition normalize_explicit_wp :: "waypoint list \<Rightarrow> real \<Rightarrow> real \<Rightarrow> waypoint \<Rightarrow> py_error + point" where
  "normalize_explicit_wp waypoints start_time mission_duration wp =
     bind_err (getitem (wp_time wp)) (\<lambda>t.
     bind_err (map_err (\<lambda>w. getitem (wp_time w)) waypoints) (\<lambda>ts.
     bind_err (py_max ts) (\<lambda>m.
     bind_err (py_div t m) (\<lambda>q.
     bind_err (getitem (wp_x wp)) (\<lambda>x.
     bind_err (getitem (wp_y wp)) (\<lambda>y.
       Inr \<lparr>pt_time = start_time + q * mission_duration, pt_x = x, pt_y = y,
            pt_z = get_default (wp_z wp) 50, pt_speed = None, pt_heading = None\<rparr>))))))"

text \<open>The body of the loop that spreads waypoints evenly by index.\<close>

definition normalize_even_wp :: "nat \<Rightarrow> real \<Rightarrow> real \<Rightarrow> nat \<times> waypoint \<Rightarrow> py_error + point" where
  "normalize_even_wp n start_time mission_duration iw =
     (case iw of (i, wp) \<Rightarrow>
       bind_err (if n > 1 then py_div (real i) (real (n - 1)) else Inr 0) (\<lambda>time_fraction.
       bind_err (getitem (wp_x wp)) (\<lambda>x.
       bind_err (getitem (wp_y wp)) (\<lambda>y.
         Inr \<lparr>pt_time = start_time + time_fraction * mission_duration, pt_x = x, pt_y = y,
              pt_z = get_default (wp_z wp) 50, pt_speed = None, pt_heading = None\<rparr>))))"

definition normalize_waypoint_times :: "waypoint list \<Rightarrow> real \<Rightarrow> real \<Rightarrow> py_error + point list" where
  "normalize_waypoint_times waypoints start_time end_time =
     (if waypoints = [] then Inr []
      else
        let mission_duration = end_time - start_time in
        bind_err
          (if list_all (\<lambda>wp. wp_time wp \<noteq> None) waypoints
           then map_err (normalize_explicit_wp waypoints start_time mission_duration) waypoints
           else map_err (normalize_even_wp (length waypoints) start_time mission_duration)
                  (enumerate 0 waypoints))
          (\<lambda>normalized. Inr (sort_key pt_time normalized)))"

subsection \<open>\<open>_interpolate_position_at_time\<close>\<close>

text \<open>
  The scan over consecutive pairs; \<open>None\<close> means the loop ended without returning.
\<close>

fun interpolate_scan :: "point list \<Rightarrow> real \<Rightarrow> (py_error + point) option" where
  "interpolate_scan (wp1 # wp2 # rest) target_time =
     (if pt_time wp1 \<le> target_time \<and> target_time \<le> pt_time wp2 then
        Some (bind_err (py_div (target_time - pt_time wp1) (pt_time wp2 - pt_time wp1))
          (\<lambda>time_ratio.
            Inr \<lparr>pt_time = target_time,
                 pt_x = pt_x wp1 + time_ratio * (pt_x wp2 - pt_x wp1),
                 pt_y = pt_y wp1 + time_ratio * (pt_y wp2 - pt_y wp1),
                 pt_z = pt_z wp1 + time_ratio * (pt_z wp2 - pt_z wp1),
                 pt_speed = None, pt_heading = None\<rparr>))
      else interpolate_scan (wp2 # rest) target_time)"
| "interpolate_scan _ target_time = None"

definition interpolate_position_at_time :: "point list \<Rightarrow> real \<Rightarrow> py_error + point option" where
  "interpolate_position_at_time waypoints target_time =
     (case waypoints of
        [] \<Rightarrow> Inr None
      | wp0 # _ \<Rightarrow>
          if target_time \<le> pt_time wp0 then Inr (Some wp0)
          else if target_time \<ge> pt_time (last waypoints) then Inr (Some (last waypoints))
          else (case interpolate_scan waypoints target_time of
                  Some r \<Rightarrow> bind_err r (\<lambda>p. Inr (Some p))
                | None \<Rightarrow> Inr (Some (last waypoints))))"

subsection \<open>\<open>_calculate_speed_at_time\<close> and \<open>_calculate_heading_at_time\<close>\<close>

fun speed_scan :: "point list \<Rightarrow> real \<Rightarrow> real option" where
  "speed_scan (wp1 # wp2 # rest) target_time =
     (if pt_time wp1 \<le> target_time \<and> target_time \<le> pt_time wp2 then
        (let distance = sqrt ((pt_x wp2 - pt_x wp1)\<^sup>2 + (pt_y wp2 - pt_y wp1)\<^sup>2
                              + (pt_z wp2 - pt_z wp1)\<^sup>2);
             time_diff = pt_time wp2 - pt_time wp1
         in if time_diff > 0 then Some (max min_speed (min max_speed (distance / time_diff)))
            else speed_scan (wp2 # rest) target_time)
      else speed_scan (wp2 # rest) target_time)"
| "speed_scan _ target_time = None"

definition calculate_speed_at_time :: "point list \<Rightarrow> real \<Rightarrow> real" where
  "calculate_speed_at_time waypoints target_time =
     (if length waypoints < 2 then 0
      else (case speed_scan waypoints target_time of
              Some v \<Rightarrow> v
            | None \<Rightarrow> default_speed))"

fun heading_scan :: "point list \<Rightarrow> real \<Rightarrow> real option" where
  "heading_scan (wp1 # wp2 # rest) target_time =
     (if pt_time wp1 \<le> target_time \<and> target_time \<le> pt_time wp2 then
        (let dx = pt_x wp2 - pt_x wp1; dy = pt_y wp2 - pt_y wp1
         in Some (atan2 dy dx * 180 / pi))
      else heading_scan (wp2 # rest) target_time)"
| "heading_scan _ target_time = None"

definition calculate_heading_at_time :: "point list \<Rightarrow> real \<Rightarrow> real" where
  "calculate_heading_at_time waypoints target_time =
     (if length waypoints < 2 then 0
      else (case heading_scan waypoints target_time of
              Some h \<Rightarrow> h
            | None \<Rightarrow> 0))"

subsection \<open>\<open>calculate_trajectory\<close>\<close>

text \<open>
  One pass of the body of the \<open>while\<close> loop at \<open>current_time\<close>: the point to append, if the
  interpolation found a position.
\<close>

definition sample_point :: "point list \<Rightarrow> real \<Rightarrow> py_error + point option" where
  "sample_point normalized_waypoints current_time =
     bind_err (interpolate_position_at_time normalized_waypoints current_time) (\<lambda>position.
       Inr (case position of
              None \<Rightarrow> None
            | Some p \<Rightarrow>
                Some \<lparr>pt_time = current_time, pt_x = pt_x p, pt_y = pt_y p, pt_z = pt_z p,
                      pt_speed = Some (calculate_speed_at_time normalized_waypoints current_time),
                      pt_heading = Some (calculate_heading_at_time normalized_waypoints current_time)\<rparr>))"

text \<open>
  The loop \<open>while current_time <= end_time\<close>. It need not end (a \<open>time_step\<close> that is not
  positive never leaves it), so it is a partial function: \<open>None\<close> is a run that never
  returns, \<open>Some (Inl e)\<close> a raise, \<open>Some (Inr pts)\<close> the list at loop exit.
\<close>

partial_function (option) sample_loop ::
  "point list \<Rightarrow> real \<Rightarrow> real \<Rightarrow> real \<Rightarrow> point list \<Rightarrow> (py_error + point list) option" where
  "sample_loop normalized_waypoints end_time time_step current_time trajectory_points =
     (if current_time \<le> end_time then
        (case sample_point normalized_waypoints current_time of
           Inl e \<Rightarrow> Some (Inl e)
         | Inr None \<Rightarrow>
             sample_loop normalized_waypoints end_time time_step (current_time + time_step)
               trajectory_points
         | Inr (Some p) \<Rightarrow>
             sample_loop normalized_waypoints end_time time_step (current_time + time_step)
               (trajectory_points @ [p]))
      else Some (Inr trajectory_points))"

text \<open>The block under ``Ensure end waypoint is included''.\<close>

definition ensure_end :: "point list \<Rightarrow> real \<Rightarrow> point list \<Rightarrow> py_error + point list" where
  "ensure_end normalized_waypoints end_time trajectory_points =
     (if trajectory_points \<noteq> [] \<and> pt_time (last trajectory_points) < end_time then
        (case normalized_waypoints of
           [] \<Rightarrow> Inl IndexError
         | _ # _ \<Rightarrow>
             let final_position = last normalized_waypoints in
             Inr (trajectory_points @
               [\<lparr>pt_time = end_time, pt_x = pt_x final_position, pt_y = pt_y final_position,
                 pt_z = pt_z final_position, pt_speed = Some 0,
                 pt_heading = pt_heading (last trajectory_points)\<rparr>]))
      else Inr trajectory_points)"

definition calculate_trajectory ::
  "waypoint list \<Rightarrow> real \<Rightarrow> real \<Rightarrow> real \<Rightarrow> (py_error + point list) option" where
  "calculate_trajectory waypoints start_time end_time time_step =
     (if waypoints = [] \<or> length waypoints < 2 then Some (Inr [])
      else
        (case normalize_waypoint_times waypoints start_time end_time of
           Inl e \<Rightarrow> Some (Inl e)
         | Inr normalized_waypoints \<Rightarrow>
             (case sample_loop normalized_waypoints end_time time_step start_time [] of
                None \<Rightarrow> None
              | Some (Inl e) \<Rightarrow> Some (Inl e)
              | Some (Inr trajectory_points) \<Rightarrow>
                  Some (ensure_end normalized_waypoints end_time trajectory_points))))"

section \<open>Geometry helpers (utils.py)\<close>

definition calculate_distance_3d :: "point \<Rightarrow> point \<Rightarrow> real" where
  "calculate_distance_3d pos1 pos2 =
     (let dx = pt_x pos1 - pt_x pos2; dy = pt_y pos1 - pt_y pos2; dz = pt_z pos1 - pt_z pos2
      in sqrt (dx * dx + dy * dy + dz * dz))"

definition interpolate_position :: "point \<Rightarrow> point \<Rightarrow> real \<Rightarrow> py_error + point" where
  "interpolate_position pos1 pos2 target_time =
     (if pt_time pos1 = pt_time pos2 then Inr pos1
      else
        bind_err (py_div (target_time - pt_time pos1) (pt_time pos2 - pt_time pos1))
          (\<lambda>time_ratio0.
            let time_ratio = max 0 (min 1 time_ratio0) in
            Inr \<lparr>pt_time = target_time,
                 pt_x = pt_x pos1 + time_ratio * (pt_x pos2 - pt_x pos1),
                 pt_y = pt_y pos1 + time_ratio * (pt_y pos2 - pt_y pos1),
                 pt_z = pt_z pos1 + time_ratio * (pt_z pos2 - pt_z pos1),
                 pt_speed = None, pt_heading = None\<rparr>))"

text \<open>
  \<open>validate_waypoints\<close>, the structural check that callers run before the calculator. The
  conversion \<open>float(...)\<close> cannot fail on a coordinate that is a number.
\<close>

definition validate_waypoints :: "waypoint list \<Rightarrow> bool" where
  "validate_waypoints waypoints =
     (if waypoints = [] \<or> length waypoints < 2 then False
      else list_all
             (\<lambda>wp. case (wp_x wp, wp_y wp, wp_z wp) of
                     (Some x, Some y, Some z) \<Rightarrow>
                       if \<bar>x\<bar> > 10000 \<or> \<bar>y\<bar> > 10000 then False
                       else if z < 0 \<or> z > 1000 then False
                       else True
                   | _ \<Rightarrow> False)
             waypoints)"

section \<open>Deconfliction engine (deconfliction_engine.py)\<close>

text \<open>
  A conflict dictionary. Its \<open>description\<close> entry, a formatted string of two floats, is
  left out; no other entry depends on it.
\<close>

record location =
  loc_x :: real
  loc_y :: real
  loc_z :: real

record conflict =
  c_type :: string
  c_time :: real
  c_location :: location
  c_distance :: real
  c_safety_buffer :: real
  c_severity :: string
  c_severity_score :: real
  c_other_flight_id :: string
  c_primary_position :: point
  c_other_position :: point

record flight =
  flight_id :: string
  trajectory :: "point list"

record analysis_summary =
  total_checks :: nat
  spatial_violations :: nat
  temporal_violations :: nat
  safe_segments :: nat

record report =
  conflicts :: "conflict list"
  summary :: analysis_summary
  is_safe :: bool
  total_conflicts :: nat

subsection \<open>\<open>_get_position_at_time\<close>\<close>

text \<open>The body of the second loop, on the pair \<open>(before_point, after_point)\<close>.\<close>

definition update_surrounding ::
  "real \<Rightarrow> point \<Rightarrow> point option \<times> point option \<Rightarrow> point option \<times> point option" where
  "update_surrounding target_time p ba =
     (case ba of (before_point, after_point) \<Rightarrow>
        if pt_time p < target_time then
          (case before_point of
             None \<Rightarrow> (Some p, after_point)
           | Some b \<Rightarrow> if pt_time p > pt_time b then (Some p, after_point)
                       else (before_point, after_point))
        else if pt_time p > target_time then
          (case after_point of
             None \<Rightarrow> (before_point, Some p)
           | Some a \<Rightarrow> if pt_time p < pt_time a then (before_point, Some p)
                       else (before_point, after_point))
        else (before_point, after_point))"

definition get_position_at_time :: "point list \<Rightarrow> real \<Rightarrow> py_error + point option" where
  "get_position_at_time traj target_time =
     (case find (\<lambda>p. pt_time p = target_time) traj of
        Some p \<Rightarrow> Inr (Some p)
      | None \<Rightarrow>
          (case fold (update_surrounding target_time) traj (None, None) of
             (Some before_point, Some after_point) \<Rightarrow>
               bind_err (interpolate_position before_point after_point target_time)
                 (\<lambda>p. Inr (Some p))
           | (Some before_point, None) \<Rightarrow> Inr (Some before_point)
           | (None, Some after_point) \<Rightarrow> Inr (Some after_point)
           | (None, None) \<Rightarrow> Inr None))"

subsection \<open>\<open>_create_conflict_record\<close>\<close>

definition create_conflict_record ::
  "point \<Rightarrow> point \<Rightarrow> real \<Rightarrow> real \<Rightarrow> string \<Rightarrow> real \<Rightarrow> py_error + conflict" where
  "create_conflict_record primary_pos other_pos time_point distance other_flight_id safety_buffer =
     bind_err (py_div (safety_buffer - distance) safety_buffer) (\<lambda>q.
       let severity_score = max 0 q;
           conflict_type = ''spatial'';
           severity = (if distance < float_mul safety_buffer float_0_5 then ''HIGH''
                       else if distance < float_mul safety_buffer float_0_8 then ''MEDIUM''
                       else ''LOW'')
       in Inr \<lparr>c_type = conflict_type, c_time = time_point,
               c_location = \<lparr>loc_x = (pt_x primary_pos + pt_x other_pos) / 2,
                              loc_y = (pt_y primary_pos + pt_y other_pos) / 2,
                              loc_z = (pt_z primary_pos + pt_z other_pos) / 2\<rparr>,
               c_distance = distance, c_safety_buffer = safety_buffer,
               c_severity = severity, c_severity_score = severity_score,
               c_other_flight_id = other_flight_id,
               c_primary_position = primary_pos, c_other_position = other_pos\<rparr>)"

subsection \<open>\<open>_detect_trajectory_conflicts\<close>\<close>

text \<open>The sorted union of the two key sets of the time-indexed lookups.\<close>

definition all_times :: "point list \<Rightarrow> point list \<Rightarrow> real list" where
  "all_times primary_traj other_traj =
     sort (remdups (map pt_time primary_traj @ map pt_time other_traj))"

text \<open>The body of the loop over \<open>all_times\<close>: the conflicts appended at one instant.\<close>

definition check_instant ::
  "point list \<Rightarrow> point list \<Rightarrow> string \<Rightarrow> real \<Rightarrow> real \<Rightarrow> py_error + conflict list" where
  "check_instant primary_traj other_traj other_flight_id safety_buffer time_point =
     bind_err (get_position_at_time primary_traj time_point) (\<lambda>primary_pos.
     bind_err (get_position_at_time other_traj time_point) (\<lambda>other_pos.
       (case (primary_pos, other_pos) of
          (Some pp, Some op) \<Rightarrow>
            let distance = calculate_distance_3d pp op in
            if distance < safety_buffer then
              bind_err (create_conflict_record pp op time_point distance other_flight_id
                          safety_buffer) (\<lambda>c. Inr [c])
            else Inr []
        | _ \<Rightarrow> Inr [])))"

definition detect_trajectory_conflicts ::
  "point list \<Rightarrow> point list \<Rightarrow> string \<Rightarrow> real \<Rightarrow> py_error + conflict list" where
  "detect_trajectory_conflicts primary_traj other_traj other_flight_id safety_buffer =
     bind_err (map_err (check_instant primary_traj other_traj other_flight_id safety_buffer)
                 (all_times primary_traj other_traj))
       (\<lambda>found. Inr (concat found))"

subsection \<open>\<open>check_conflicts\<close>\<close>

text \<open>The loop over the other flights, on the pair of \<open>conflicts\<close> and \<open>total_checks\<close>.\<close>

fun check_loop ::
  "point list \<Rightarrow> real \<Rightarrow> flight list \<Rightarrow> conflict list \<times> nat \<Rightarrow> py_error + conflict list \<times> nat" where
  "check_loop primary_trajectory safety_buffer [] acc = Inr acc"
| "check_loop primary_trajectory safety_buffer (other_traj_data # rest) (cs, checks) =
     bind_err (detect_trajectory_conflicts primary_trajectory (trajectory other_traj_data)
                 (flight_id other_traj_data) safety_buffer)
       (\<lambda>traj_conflicts.
          check_loop primary_trajectory safety_buffer rest
            (cs @ traj_conflicts,
             checks + length primary_trajectory * length (trajectory other_traj_data)))"

text \<open>The body of the classification loop.\<close>

definition classify :: "conflict \<Rightarrow> analysis_summary \<Rightarrow> analysis_summary" where
  "classify c s =
     (if c_type c = ''spatial'' then s\<lparr>spatial_violations := spatial_violations s + 1\<rparr>
      else if c_type c = ''temporal'' then s\<lparr>temporal_violations := temporal_violations s + 1\<rparr>
      else s)"

definition check_conflicts :: "point list \<Rightarrow> flight list \<Rightarrow> real \<Rightarrow> py_error + report" where
  "check_conflicts primary_trajectory other_trajectories safety_buffer =
     bind_err (check_loop primary_trajectory safety_buffer other_trajectories ([], 0))
       (\<lambda>(cs, checks).
          let analysis = fold classify cs
                \<lparr>total_checks = checks, spatial_violations = 0,
                 temporal_violations = 0, safe_segments = 0\<rparr>;
              sorted_cs = sort_key (\<lambda>c. (c_severity_score c, c_time c)) cs
          in Inr \<lparr>conflicts = sorted_cs, summary = analysis,
                  is_safe = (length sorted_cs = 0), total_conflicts = length sorted_cs\<rparr>)"

section \<open>The specification's normalization formula\<close>

text \<open>
  The two definitions of this section follow the words of the specification, not the
  code: the largest raw time over the whole waypoint set, and the rescaling
  \<open>start + (raw_time / max_raw_time) * duration\<close>.
\<close>

definition max_raw_time :: "waypoint list \<Rightarrow> real" where
  "max_raw_time waypoints = Max (set (List.map_filter wp_time waypoints))"

definition spec_normalized_time :: "real \<Rightarrow> real \<Rightarrow> real \<Rightarrow> real \<Rightarrow> real" where
  "spec_normalized_time start_time end_time raw_time max_raw =
     start_time + (raw_time / max_raw) * (end_time - start_time)"

section \<open>The nearest samples of a position lookup\<close>

text \<open>
  The two predicates of this section follow the words of the description of the lookup:
  the nearest earlier sample is the first sample of the latest time before the target, the
  nearest later sample the first sample of the earliest time after it.
\<close>

definition nearest_earlier :: "point list \<Rightarrow> real \<Rightarrow> point \<Rightarrow> bool" where
  "nearest_earlier traj target_time b \<longleftrightarrow>
     find (\<lambda>q. pt_time q = pt_time b) traj = Some b \<and> pt_time b < target_time
     \<and> (\<forall>q \<in> set traj. pt_time q < target_time \<longrightarrow> pt_time q \<le> pt_time b)"

definition nearest_later :: "point list \<Rightarrow> real \<Rightarrow> point \<Rightarrow> bool" where
  "nearest_later traj target_time a \<longleftrightarrow>
     find (\<lambda>q. pt_time q = pt_time a) traj = Some a \<and> target_time < pt_time a
     \<and> (\<forall>q \<in> set traj. target_time < pt_time q \<longrightarrow> pt_time a \<le> pt_time q)"

section \<open>A worked mission\<close>

text \<open>
  Two waypoints given out of time order, the first without altitude, with raw times 20 and
  10, flown in the window from 0 to 10 and sampled every 4 seconds. The normalized times are
  5 and 10. The samples fall at 0, 4 and 8: the first two lie before the first waypoint and
  take the default speed, the third lies on the segment, and the end point at 10 is the
  appended one.
\<close>

definition example_waypoints :: "waypoint list" where
  "example_waypoints =
     [\<lparr>wp_x = Some 100, wp_y = Some 0, wp_z = None, wp_time = Some 20\<rparr>,
      \<lparr>wp_x = Some 0, wp_y = Some 0, wp_z = Some 50, wp_time = Some 10\<rparr>]"

definition example_normalized :: "point list" where
  "example_normalized =
     [\<lparr>pt_time = 5, pt_x = 0, pt_y = 0, pt_z = 50, pt_speed = None, pt_heading = None\<rparr>,
      \<lparr>pt_time = 10, pt_x = 100, pt_y = 0, pt_z = 50, pt_speed = None, pt_heading = None\<rparr>]"

definition example_trajectory :: "point list" where
  "example_trajectory =
     [\<lparr>pt_time = 0, pt_x = 0, pt_y = 0, pt_z = 50, pt_speed = Some 15, pt_heading = Some 0\<rparr>,
      \<lparr>pt_time = 4, pt_x = 0, pt_y = 0, pt_z = 50, pt_speed = Some 15, pt_heading = Some 0\<rparr>,
      \<lparr>pt_time = 8, pt_x = 60, pt_y = 0, pt_z = 50, pt_speed = Some 20, pt_heading = Some 0\<rparr>,
      \<lparr>pt_time = 10, pt_x = 100, pt_y = 0, pt_z = 50, pt_speed = Some 0, pt_heading = Some 0\<rparr>]"

text \<open>
  A mission whose waypoints all carry the raw time 0, as a mission entered without
  timing does. It passes \<open>validate_waypoints\<close>.
\<close>

definition zero_time_waypoints :: "waypoint list" where
  "zero_time_waypoints =
     [\<lparr>wp_x = Some 0, wp_y = Some 0, wp_z = Some 60, wp_time = Some 0\<rparr>,
      \<lparr>wp_x = Some 80, wp_y = Some 0, wp_z = Some 60, wp_time = Some 0\<rparr>]"

section \<open>A worked conflict check\<close>

text \<open>
  A primary trajectory and one other flight, two samples each at the same two instants.
  At 110 the flights are 105 apart, at 120 they are 5 apart, inside the buffer of 50.
\<close>

definition example_primary :: "point list" where
  "example_primary =
     [\<lparr>pt_time = 110, pt_x = 50, pt_y = 50, pt_z = 160, pt_speed = Some 10, pt_heading = Some 0\<rparr>,
      \<lparr>pt_time = 120, pt_x = 50, pt_y = 50, pt_z = 60, pt_speed = Some 0, pt_heading = Some 0\<rparr>]"

definition example_other :: flight where
  "example_other =
     \<lparr>flight_id = ''UAV_002'',
      trajectory =
        [\<lparr>pt_time = 110, pt_x = 50, pt_y = 50, pt_z = 55, pt_speed = Some 5, pt_heading = Some 0\<rparr>,
         \<lparr>pt_time = 120, pt_x = 50, pt_y = 50, pt_z = 55, pt_speed = Some 0, pt_heading = Some 0\<rparr>]\<rparr>"

definition example_conflict :: conflict where
  "example_conflict =
     \<lparr>c_type = ''spatial'', c_time = 120,
      c_location = \<lparr>loc_x = 50, loc_y = 50, loc_z = 115 / 2\<rparr>,
      c_distance = 5, c_safety_buffer = 50, c_severity = ''HIGH'', c_severity_score = 9 / 10,
      c_other_flight_id = ''UAV_002'',
      c_primary_position =
        \<lparr>pt_time = 120, pt_x = 50, pt_y = 50, pt_z = 60, pt_speed = Some 0, pt_heading = Some 0\<rparr>,
      c_other_position =
        \<lparr>pt_time = 120, pt_x = 50, pt_y = 50, pt_z = 55, pt_speed = Some 0, pt_heading = Some 0\<rparr>\<rparr>"

definition example_report :: report where
  "example_report =
     \<lparr>conflicts = [example_conflict],
      summary = \<lparr>total_checks = 4, spatial_violations = 1, temporal_violations = 0,
                 safe_segments = 0\<rparr>,
      is_safe = False, total_conflicts = 1\<rparr>"

text \<open>
  A check at a rounding boundary: two flights \<open>34.4\<close> apart (the float of that name) under
  a buffer of 43. The float product \<open>43 * 0.8\<close> is that same float, so the distance is not
  below the threshold and the severity is LOW, although the distance is below the exact
  product of 43 and four fifths.
\<close>

definition float_34_4 :: real where
  "float_34_4 = round_float (172 / 5)"

definition boundary_primary :: "point list" where
  "boundary_primary =
     [\<lparr>pt_time = 0, pt_x = 0, pt_y = 0, pt_z = float_34_4, pt_speed = Some 0, pt_heading = Some 0\<rparr>]"

definition boundary_other :: flight where
  "boundary_other =
     \<lparr>flight_id = ''UAV_002'',
      trajectory =
        [\<lparr>pt_time = 0, pt_x = 0, pt_y = 0, pt_z = 0, pt_speed = Some 0, pt_heading = Some 0\<rparr>]\<rparr>"

definition boundary_conflict :: conflict where
  "boundary_conflict =
     \<lparr>c_type = ''spatial'', c_time = 0,
      c_location = \<lparr>loc_x = 0, loc_y = 0, loc_z = float_34_4 / 2\<rparr>,
      c_distance = float_34_4, c_safety_buffer = 43, c_severity = ''LOW'',
      c_severity_score = (43 - float_34_4) / 43,
      c_other_flight_id = ''UAV_002'',
      c_primary_position =
        \<lparr>pt_time = 0, pt_x = 0, pt_y = 0, pt_z = float_34_4, pt_speed = Some 0, pt_heading = Some 0\<rparr>,
      c_other_position =
        \<lparr>pt_time = 0, pt_x = 0, pt_y = 0, pt_z = 0, pt_speed = Some 0, pt_heading = Some 0\<rparr>\<rparr>"

definition boundary_report :: report where
  "boundary_report =
     \<lparr>conflicts = [boundary_conflict],
      summary = \<lparr>total_checks = 1, spatial_violations = 1, temporal_violations = 0,
                 safe_segments = 0\<rparr>,
      is_safe = False, total_conflicts = 1\<rparr>"

section \<open>Lemmas on the primitives\<close>

lemma bind_err_Inl [simp]: "bind_err (Inl e) f = Inl e"
  by (simp add: bind_err_def)

lemma bind_err_Inr [simp]: "bind_err (Inr a) f = f a"
  by (simp add: bind_err_def)

lemma bind_err_eq_Inr: "bind_err m f = Inr b \<longleftrightarrow> (\<exists>a. m = Inr a \<and> f a = Inr b)"
  by (cases m) simp_all

lemma map_err_eq_Inr: "map_err f xs = Inr ys \<longleftrightarrow> list_all2 (\<lambda>x y. f x = Inr y) xs ys"
proof (induction xs arbitrary: ys)
  case Nil
  show ?case by auto
next
  case (Cons x xs)
  show ?case
    by (cases ys) (auto simp: bind_err_eq_Inr Cons.IH)
qed

lemma getitem_eq_Inr [simp]: "getitem v = Inr a \<longleftrightarrow> v = Some a"
  by (cases v) (simp_all add: getitem_def)

lemma getitem_Some [simp]: "getitem (Some a) = Inr a"
  by (simp add: getitem_def)

lemma getitem_None [simp]: "getitem None = Inl KeyError"
  by (simp add: getitem_def)

lemma py_div_eq_Inr: "py_div a b = Inr q \<longleftrightarrow> b \<noteq> 0 \<and> q = a / b"
  by (auto simp: py_div_def)

lemma py_max_eq_Inr: "py_max ts = Inr m \<longleftrightarrow> ts \<noteq> [] \<and> m = Max (set ts)"
proof (cases ts)
  case Nil
  then show ?thesis by (simp add: py_max_def)
next
  case (Cons t rest)
  have "(\<lambda>v m. if m < v then v else m) = (max :: real \<Rightarrow> real \<Rightarrow> real)"
    by (intro ext) (simp add: max_def)
  then show ?thesis
    using Cons Max.set_eq_fold [of t rest] by (auto simp: py_max_def)
qed

lemma sample_loop_invariant:
  assumes run: "sample_loop nws e step cur acc = Some (Inr pts)"
    and init: "I cur acc"
    and app: "\<And>t a p. I t a \<Longrightarrow> t \<le> e \<Longrightarrow> sample_point nws t = Inr (Some p) \<Longrightarrow> I (t + step) (a @ [p])"
    and skip: "\<And>t a. I t a \<Longrightarrow> t \<le> e \<Longrightarrow> sample_point nws t = Inr None \<Longrightarrow> I (t + step) a"
  shows "\<exists>t. I t pts \<and> \<not> t \<le> e"
proof -
  let ?P = "\<lambda>nws' e' step' cur acc (y :: py_error + point list). nws' = nws \<longrightarrow> e' = e \<longrightarrow> step' = step \<longrightarrow> I cur acc \<longrightarrow>
        (\<forall>pts. y = Inr pts \<longrightarrow> (\<exists>t. I t pts \<and> \<not> t \<le> e))"
  have "?P nws e step cur acc (Inr pts)"
  proof (rule sample_loop.raw_induct [where P = ?P, OF _ run])
    fix loop :: "point list \<Rightarrow> real \<Rightarrow> real \<Rightarrow> real \<Rightarrow> point list \<Rightarrow> (py_error + point list) option"
    fix nws' e' step' cur acc y
    assume IH: "\<And>a b c d f y. loop a b c d f = Some y \<Longrightarrow> ?P a b c d f y"
    assume body: "(if cur \<le> e' then
        (case sample_point nws' cur of
           Inl err \<Rightarrow> Some (Inl err)
         | Inr None \<Rightarrow> loop nws' e' step' (cur + step') acc
         | Inr (Some p) \<Rightarrow> loop nws' e' step' (cur + step') (acc @ [p]))
      else Some (Inr acc)) = Some y"
    show "?P nws' e' step' cur acc y"
    proof (intro impI allI)
      fix pts
      assume eqs: "nws' = nws" "e' = e" "step' = step" and inv: "I cur acc" and y: "y = Inr pts"
      show "\<exists>t. I t pts \<and> \<not> t \<le> e"
      proof (cases "cur \<le> e")
        case False
        with body y eqs inv show ?thesis by auto
      next
        case True
        show ?thesis
        proof (cases "sample_point nws cur")
          case (Inl err)
          with body True y eqs show ?thesis by simp
        next
          case (Inr po)
          show ?thesis
          proof (cases po)
            case None
            with body True Inr eqs have "loop nws e step (cur + step) acc = Some y" by simp
            moreover have "I (cur + step) acc" using skip inv True Inr None by simp
            ultimately show ?thesis using IH y by blast
          next
            case (Some p)
            with body True Inr eqs have "loop nws e step (cur + step) (acc @ [p]) = Some y" by simp
            moreover have "I (cur + step) (acc @ [p])" using app inv True Inr Some by simp
            ultimately show ?thesis using IH y by blast
          qed
        qed
      qed
    qed
  qed
  with init show ?thesis by blast
qed


lemma map_err_total:
  "(\<And>x. x \<in> set xs \<Longrightarrow> \<exists>y. f x = Inr y) \<Longrightarrow> \<exists>ys. map_err f xs = Inr ys"
proof (induction xs)
  case Nil
  show ?case by simp
next
  case (Cons x xs)
  from Cons.prems obtain y where "f x = Inr y" by auto
  moreover from Cons obtain ys where "map_err f xs = Inr ys" by auto
  ultimately show ?case by simp
qed

lemma interpolate_scan_sorted:
  "sorted (map pt_time wps) \<Longrightarrow> wps \<noteq> [] \<Longrightarrow> pt_time (hd wps) < t \<Longrightarrow>
   interpolate_scan wps t \<noteq> Some (Inl err)"
proof (induction wps t rule: interpolate_scan.induct)
  case (1 wp1 wp2 rest target_time)
  show ?case
  proof (cases "target_time \<le> pt_time wp2")
    case True
    with 1(4) show ?thesis by (simp add: py_div_def)
  next
    case False
    moreover from 1(2) have "sorted (map pt_time (wp2 # rest))" by simp
    ultimately show ?thesis using 1(1) by simp
  qed
qed simp_all

lemma interpolate_position_at_time_sorted:
  assumes "sorted (map pt_time wps)" "wps \<noteq> []"
  shows "\<exists>p. interpolate_position_at_time wps t = Inr (Some p)"
proof -
  from assms(2) obtain wp0 rest where wps: "wps = wp0 # rest" by (cases wps) auto
  show ?thesis
  proof (cases "pt_time wp0 < t \<and> t < pt_time (last wps)")
    case False
    then show ?thesis by (auto simp: interpolate_position_at_time_def wps)
  next
    case True
    then have "interpolate_scan wps t \<noteq> Some (Inl err)" for err
      using interpolate_scan_sorted [OF assms] by (simp add: wps)
    then show ?thesis
      using True
      by (cases "interpolate_scan wps t")
         (auto simp: interpolate_position_at_time_def wps bind_err_def split: sum.splits)
  qed
qed

lemma sample_point_Some:
  "sample_point nws t = Inr (Some p) \<Longrightarrow>
   pt_time p = t \<and> pt_speed p = Some (calculate_speed_at_time nws t)"
  by (auto simp: sample_point_def bind_err_eq_Inr split: option.splits)

lemma sample_point_None: "sample_point nws t = Inr None \<Longrightarrow> nws = []"
  by (auto simp: sample_point_def bind_err_eq_Inr interpolate_position_at_time_def
      split: option.splits list.splits if_splits)

lemma sample_point_sorted:
  assumes "sorted (map pt_time nws)" "nws \<noteq> []"
  shows "\<exists>p. sample_point nws t = Inr (Some p)"
  using interpolate_position_at_time_sorted [OF assms, of t]
  by (auto simp: sample_point_def)

lemma speed_scan_range: "speed_scan wps t = Some v \<Longrightarrow> 5 \<le> v \<and> v \<le> 30"
  by (induction wps t rule: speed_scan.induct)
     (auto simp: Let_def min_speed_def max_speed_def split: if_splits)

lemma calculate_speed_at_time_range:
  "2 \<le> length wps \<Longrightarrow> 5 \<le> calculate_speed_at_time wps t \<and> calculate_speed_at_time wps t \<le> 30"
  using speed_scan_range [of wps t]
  by (auto simp: calculate_speed_at_time_def default_speed_def split: option.splits)

lemma sample_loop_terminates_aux:
  assumes step: "0 < step"
  shows "e - cur < real k * step \<Longrightarrow> \<exists>r. sample_loop nws e step cur acc = Some r"
proof (induction k arbitrary: cur acc)
  case 0
  then show ?case by (subst sample_loop.simps) simp
next
  case (Suc k)
  have next_ok: "\<exists>r. sample_loop nws e step (cur + step) acc' = Some r" for acc'
    using Suc.prems by (intro Suc.IH) (simp add: algebra_simps)
  show ?case
    by (subst sample_loop.simps) (auto simp: next_ok split: sum.splits option.splits)
qed

lemma sample_loop_terminates:
  assumes "0 < step"
  shows "\<exists>r. sample_loop nws e step cur acc = Some r"
proof -
  obtain k :: nat where "(e - cur) / step < real k"
    using reals_Archimedean2 by blast
  with assms have "e - cur < real k * step"
    by (simp add: pos_divide_less_eq)
  then show ?thesis by (rule sample_loop_terminates_aux [OF assms])
qed

lemma sample_loop_no_error:
  assumes ok: "\<And>t err. sample_point nws t \<noteq> Inl err"
  shows "sample_loop nws e step cur acc \<noteq> Some (Inl err)"
proof
  assume run: "sample_loop nws e step cur acc = Some (Inl err)"
  let ?P = "\<lambda>nws' (e' :: real) (step' :: real) (cur :: real) (acc :: point list)
              (y :: py_error + point list). nws' = nws \<longrightarrow> (\<forall>err. y \<noteq> Inl err)"
  have "?P nws e step cur acc (Inl err)"
  proof (rule sample_loop.raw_induct [where P = ?P, OF _ run])
    fix loop :: "point list \<Rightarrow> real \<Rightarrow> real \<Rightarrow> real \<Rightarrow> point list \<Rightarrow> (py_error + point list) option"
    fix nws' e' step' cur acc y
    assume IH: "\<And>a b c d f y. loop a b c d f = Some y \<Longrightarrow> ?P a b c d f y"
    assume body: "(if cur \<le> e' then
        (case sample_point nws' cur of
           Inl err \<Rightarrow> Some (Inl err)
         | Inr None \<Rightarrow> loop nws' e' step' (cur + step') acc
         | Inr (Some p) \<Rightarrow> loop nws' e' step' (cur + step') (acc @ [p]))
      else Some (Inr acc)) = Some y"
    show "?P nws' e' step' cur acc y"
      using body ok IH
      by (auto split: if_splits sum.splits option.splits)
  qed
  then show False by simp
qed

section \<open>Lemmas on the trajectory calculator\<close>

lemma raw_times_explicit:
  assumes "map_err (\<lambda>w. getitem (wp_time w)) wps = Inr ts"
  shows "ts = List.map_filter wp_time wps"
  using assms
proof (induction wps arbitrary: ts)
  case Nil
  then show ?case by simp
next
  case (Cons w wps)
  then show ?case by (auto simp: bind_err_eq_Inr)
qed

lemma normalize_explicit_wp_Inr:
  assumes "normalize_explicit_wp wps s d wp = Inr p"
  shows "\<exists>t. wp_time wp = Some t \<and> max_raw_time wps \<noteq> 0
           \<and> pt_time p = s + (t / max_raw_time wps) * d
           \<and> wp_x wp = Some (pt_x p) \<and> wp_y wp = Some (pt_y p)
           \<and> pt_z p = (case wp_z wp of None \<Rightarrow> 50 | Some z \<Rightarrow> z)
           \<and> pt_speed p = None \<and> pt_heading p = None"
  using assms
  by (auto simp: normalize_explicit_wp_def bind_err_eq_Inr py_div_eq_Inr py_max_eq_Inr
      get_default_def max_raw_time_def dest!: raw_times_explicit)

lemma normalize_waypoint_times_Inr:
  assumes "normalize_waypoint_times wps s e = Inr nws"
  shows "sorted (map pt_time nws) \<and> length nws = length wps"
  using assms
  by (auto simp: normalize_waypoint_times_def Let_def bind_err_eq_Inr map_err_eq_Inr
      dest: list_all2_lengthD split: if_splits)

lemma calculate_trajectory_Inr:
  assumes "calculate_trajectory wps s e step = Some (Inr traj)" and "2 \<le> length wps"
  shows "\<exists>nws pts. normalize_waypoint_times wps s e = Inr nws
           \<and> sorted (map pt_time nws) \<and> length nws = length wps
           \<and> sample_loop nws e step s [] = Some (Inr pts)
           \<and> ensure_end nws e pts = Inr traj"
proof -
  from assms obtain nws where n: "normalize_waypoint_times wps s e = Inr nws"
    by (auto simp: calculate_trajectory_def split: sum.splits if_splits)
  with assms obtain pts where "sample_loop nws e step s [] = Some (Inr pts)"
    and "ensure_end nws e pts = Inr traj"
    by (auto simp: calculate_trajectory_def split: sum.splits if_splits option.splits)
  with n normalize_waypoint_times_Inr [OF n] show ?thesis by auto
qed

lemma ensure_end_cases:
  assumes "ensure_end nws e pts = Inr traj"
  shows "(traj = pts \<and> (pts = [] \<or> e \<le> pt_time (last pts)))
       \<or> (pts \<noteq> [] \<and> pt_time (last pts) < e \<and> nws \<noteq> []
          \<and> traj = pts @ [\<lparr>pt_time = e, pt_x = pt_x (last nws), pt_y = pt_y (last nws),
                 pt_z = pt_z (last nws), pt_speed = Some 0,
                 pt_heading = pt_heading (last pts)\<rparr>])"
  using assms
  by (auto simp: ensure_end_def Let_def split: if_splits list.splits)

lemma sample_loop_times:
  assumes run: "sample_loop nws e step s [] = Some (Inr pts)"
    and step: "0 < step" and se: "s \<le> e" and ne: "nws \<noteq> []"
  shows "pts \<noteq> [] \<and> pt_time (hd pts) = s \<and> sorted_wrt (<) (map pt_time pts)
         \<and> (\<forall>p \<in> set pts. pt_time p \<le> e)"
proof -
  let ?I = "\<lambda>(t :: real) (a :: point list). (\<forall>p \<in> set a. pt_time p \<le> e \<and> pt_time p < t)
              \<and> sorted_wrt (<) (map pt_time a)
              \<and> (if a = [] then t = s else pt_time (hd a) = s)"
  have "\<exists>t. ?I t pts \<and> \<not> t \<le> e"
  proof (rule sample_loop_invariant [OF run, where I = ?I])
    show "?I s []" by simp
  next
    fix t a p
    assume inv: "?I t a" and t: "t \<le> e" and sp: "sample_point nws t = Inr (Some p)"
    from sp have pt: "pt_time p = t" by (simp add: sample_point_Some)
    show "?I (t + step) (a @ [p])"
      using inv t pt step by (cases a) (auto simp: sorted_wrt_append intro: less_trans)
  next
    fix t a
    assume "sample_point nws t = Inr None"
    then have "nws = []" by (rule sample_point_None)
    with ne show "?I (t + step) a" by simp
  qed
  with se show ?thesis by (auto split: if_splits)
qed

lemma strict_sorted_le_last:
  assumes "sorted_wrt (<) (map f xs)" "x \<in> set xs"
  shows "(f x :: real) \<le> f (last xs)"
proof -
  from assms(2) have "xs \<noteq> []" by auto
  then have "xs = butlast xs @ [last xs]" by simp
  then obtain ys where ys: "xs = ys @ [last xs]" ..
  from assms(1) have "sorted_wrt (<) (map f (ys @ [last xs]))"
    using ys by simp
  then have "\<forall>y \<in> set ys. f y < f (last xs)"
    by (simp add: sorted_wrt_append)
  moreover from assms(2) have "x \<in> set (ys @ [last xs])"
    using ys by simp
  ultimately show ?thesis by auto
qed

lemma sqrt_10000: "sqrt 10000 = 100"
  by (rule real_sqrt_unique) simp_all

lemma example_normalized_eval:
  "normalize_waypoint_times example_waypoints 0 10 = Inr example_normalized"
  by (simp add: normalize_waypoint_times_def normalize_explicit_wp_def getitem_def
      get_default_def py_max_def py_div_def example_waypoints_def example_normalized_def)

lemma example_trajectory_eval:
  "calculate_trajectory example_waypoints 0 10 4 = Some (Inr example_trajectory)"
proof -
  have len: "\<not> length example_waypoints < 2" "example_waypoints \<noteq> []"
    by (simp_all add: example_waypoints_def)
  have loop: "sample_loop example_normalized 10 4 0 [] = Some (Inr (butlast example_trajectory))"
    by (simp add: sample_loop.simps sample_point_def interpolate_position_at_time_def
        py_div_def calculate_speed_at_time_def calculate_heading_at_time_def atan2_def
        sqrt_10000 min_speed_def max_speed_def default_speed_def
        example_normalized_def example_trajectory_def)
  have fin: "ensure_end example_normalized 10 (butlast example_trajectory) = Inr example_trajectory"
    by (simp add: ensure_end_def example_normalized_def example_trajectory_def)
  show ?thesis
    by (simp add: calculate_trajectory_def len example_normalized_eval loop fin)
qed

lemma speed_scan_no_bracket:
  "(\<forall>i. Suc i < length wps \<longrightarrow> \<not> (pt_time (wps ! i) \<le> t \<and> t \<le> pt_time (wps ! Suc i))) \<Longrightarrow>
   speed_scan wps t = None"
proof (induction wps t rule: speed_scan.induct)
  case (1 wp1 wp2 rest target_time)
  from 1(3) have nb: "\<not> (pt_time wp1 \<le> target_time \<and> target_time \<le> pt_time wp2)"
    by (auto dest: spec [of _ 0])
  have "\<forall>i. Suc i < length (wp2 # rest) \<longrightarrow>
          \<not> (pt_time ((wp2 # rest) ! i) \<le> target_time \<and> target_time \<le> pt_time ((wp2 # rest) ! Suc i))"
  proof (intro allI impI)
    fix i assume "Suc i < length (wp2 # rest)"
    with 1(3) [rule_format, of "Suc i"]
    show "\<not> (pt_time ((wp2 # rest) ! i) \<le> target_time \<and> target_time \<le> pt_time ((wp2 # rest) ! Suc i))"
      by simp
  qed
  with 1(2) nb show ?case by simp
qed simp_all

lemma speed_scan_first_bracket:
  "Suc i < length wps \<Longrightarrow>
   pt_time (wps ! i) \<le> t \<Longrightarrow> t \<le> pt_time (wps ! Suc i) \<Longrightarrow>
   pt_time (wps ! i) < pt_time (wps ! Suc i) \<Longrightarrow>
   (\<forall>j < i. \<not> (pt_time (wps ! j) \<le> t \<and> t \<le> pt_time (wps ! Suc j)
                \<and> pt_time (wps ! j) < pt_time (wps ! Suc j))) \<Longrightarrow>
   speed_scan wps t =
     Some (max 5 (min 30
       (sqrt ((pt_x (wps ! Suc i) - pt_x (wps ! i))\<^sup>2 + (pt_y (wps ! Suc i) - pt_y (wps ! i))\<^sup>2
              + (pt_z (wps ! Suc i) - pt_z (wps ! i))\<^sup>2)
        / (pt_time (wps ! Suc i) - pt_time (wps ! i)))))"
proof (induction wps t arbitrary: i rule: speed_scan.induct)
  case (1 wp1 wp2 rest target_time)
  show ?case
  proof (cases i)
    case 0
    with "1.prems" show ?thesis
      by (simp add: Let_def min_speed_def max_speed_def)
  next
    case (Suc k)
    with "1.prems"(5) have skip:
      "\<not> (pt_time wp1 \<le> target_time \<and> target_time \<le> pt_time wp2 \<and> pt_time wp1 < pt_time wp2)"
      by (auto dest: spec [of _ 0])
    have later: "\<forall>j < k. \<not> (pt_time ((wp2 # rest) ! j) \<le> target_time
        \<and> target_time \<le> pt_time ((wp2 # rest) ! Suc j)
        \<and> pt_time ((wp2 # rest) ! j) < pt_time ((wp2 # rest) ! Suc j))"
    proof (intro allI impI)
      fix j assume "j < k"
      with "1.prems"(5) [rule_format, of "Suc j"] Suc
      show "\<not> (pt_time ((wp2 # rest) ! j) \<le> target_time
        \<and> target_time \<le> pt_time ((wp2 # rest) ! Suc j)
        \<and> pt_time ((wp2 # rest) ! j) < pt_time ((wp2 # rest) ! Suc j))"
        by simp
    qed
    have pre: "Suc k < length (wp2 # rest)" "pt_time ((wp2 # rest) ! k) \<le> target_time"
      "target_time \<le> pt_time ((wp2 # rest) ! Suc k)"
      "pt_time ((wp2 # rest) ! k) < pt_time ((wp2 # rest) ! Suc k)"
      using "1.prems"(1-4) Suc by simp_all
    have step: "speed_scan (wp1 # wp2 # rest) target_time = speed_scan (wp2 # rest) target_time"
      using skip by (auto simp: Let_def)
    have "speed_scan (wp2 # rest) target_time =
      Some (max 5 (min 30
       (sqrt ((pt_x ((wp2 # rest) ! Suc k) - pt_x ((wp2 # rest) ! k))\<^sup>2
              + (pt_y ((wp2 # rest) ! Suc k) - pt_y ((wp2 # rest) ! k))\<^sup>2
              + (pt_z ((wp2 # rest) ! Suc k) - pt_z ((wp2 # rest) ! k))\<^sup>2)
        / (pt_time ((wp2 # rest) ! Suc k) - pt_time ((wp2 # rest) ! k)))))"
    proof (cases "pt_time wp1 \<le> target_time \<and> target_time \<le> pt_time wp2")
      case True
      with skip have nd: "\<not> pt_time wp2 - pt_time wp1 > 0" by simp
      show ?thesis by (rule "1.IH"(1) [OF True refl refl nd pre later])
    next
      case False
      show ?thesis by (rule "1.IH"(2) [OF False pre later])
    qed
    with step Suc show ?thesis by simp
  qed
qed simp_all

lemma sample_loop_speeds:
  assumes run: "sample_loop nws e step s [] = Some (Inr pts)" and len: "2 \<le> length nws"
  shows "\<forall>q \<in> set pts. \<exists>v. pt_speed q = Some v \<and> 5 \<le> v \<and> v \<le> 30"
proof -
  let ?I = "\<lambda>(t :: real) (a :: point list).
              \<forall>q \<in> set a. \<exists>v. pt_speed q = Some v \<and> 5 \<le> v \<and> v \<le> 30"
  have "\<exists>t. ?I t pts \<and> \<not> t \<le> e"
  proof (rule sample_loop_invariant [OF run, where I = ?I])
    show "?I s []" by simp
  next
    fix t a p
    assume inv: "?I t a" and sp: "sample_point nws t = Inr (Some p)"
    from sample_point_Some [OF sp] calculate_speed_at_time_range [OF len, of t]
    have "\<exists>v. pt_speed p = Some v \<and> 5 \<le> v \<and> v \<le> 30" by simp
    with inv show "?I (t + step) (a @ [p])" by simp
  next
    fix t a
    assume "?I t a"
    then show "?I (t + step) a" .
  qed
  then show ?thesis by blast
qed

lemma raw_times_total:
  "list_all (\<lambda>wp. wp_time wp \<noteq> None) wps \<Longrightarrow>
   map_err (\<lambda>w. getitem (wp_time w)) wps = Inr (List.map_filter wp_time wps)"
  by (induction wps) auto

lemma normalize_explicit_wp_zero_max:
  assumes "list_all (\<lambda>wp. wp_time wp \<noteq> None) wps" "wp \<in> set wps" "max_raw_time wps = 0"
  shows "normalize_explicit_wp wps s d wp = Inl ZeroDivisionError"
proof -
  from assms(1,2) obtain t where t: "wp_time wp = Some t"
    by (auto simp: list_all_iff)
  from assms(2) have "List.map_filter wp_time wps \<noteq> []"
    using t by (auto simp: map_filter_def filter_empty_conv)
  then have "py_max (List.map_filter wp_time wps) = Inr 0"
    using assms(3) by (simp add: py_max_eq_Inr max_raw_time_def)
  then show ?thesis
    by (simp add: normalize_explicit_wp_def t raw_times_total [OF assms(1)] py_div_def)
qed

lemma normalize_zero_max_raises:
  assumes "wps \<noteq> []" "list_all (\<lambda>wp. wp_time wp \<noteq> None) wps" "max_raw_time wps = 0"
  shows "normalize_waypoint_times wps s e = Inl ZeroDivisionError"
proof -
  from assms(1) obtain w ws where wps: "wps = w # ws" by (cases wps) auto
  then have "w \<in> set wps" by simp
  from normalize_explicit_wp_zero_max [OF assms(2) this assms(3)]
  have "map_err (normalize_explicit_wp wps s (e - s)) wps = Inl ZeroDivisionError"
    by (subst (2) wps) simp
  with assms(1,2) show ?thesis
    by (simp add: normalize_waypoint_times_def Let_def)
qed

lemma normalize_waypoint_times_total:
  assumes xy: "\<forall>wp \<in> set wps. wp_x wp \<noteq> None \<and> wp_y wp \<noteq> None"
    and mx: "list_all (\<lambda>wp. wp_time wp \<noteq> None) wps \<longrightarrow> max_raw_time wps \<noteq> 0"
  shows "\<exists>nws. normalize_waypoint_times wps s e = Inr nws"
proof (cases "wps = []")
  case True
  then show ?thesis by (simp add: normalize_waypoint_times_def)
next
  case False
  show ?thesis
  proof (cases "list_all (\<lambda>wp. wp_time wp \<noteq> None) wps")
    case True
    have "\<exists>p. normalize_explicit_wp wps s (e - s) wp = Inr p" if "wp \<in> set wps" for wp
    proof -
      from True that obtain t where t: "wp_time wp = Some t"
        by (auto simp: list_all_iff)
      from that have "List.map_filter wp_time wps \<noteq> []"
        using t by (auto simp: map_filter_def filter_empty_conv)
      then have "py_max (List.map_filter wp_time wps) = Inr (max_raw_time wps)"
        by (simp add: py_max_eq_Inr max_raw_time_def)
      moreover from xy that obtain x y where "wp_x wp = Some x" "wp_y wp = Some y"
        by auto
      ultimately show ?thesis
        using mx True
        by (simp add: normalize_explicit_wp_def t raw_times_total [OF True] py_div_def)
    qed
    from map_err_total [of wps "normalize_explicit_wp wps s (e - s)", OF this]
    show ?thesis using False True by (auto simp: normalize_waypoint_times_def Let_def)
  next
    case nt: False
    have "\<exists>p. normalize_even_wp (length wps) s (e - s) iw = Inr p"
      if "iw \<in> set (enumerate 0 wps)" for iw
    proof -
      obtain i wp where iw: "iw = (i, wp)" by (cases iw)
      with that have "wp \<in> set wps" by (auto simp: in_set_enumerate_eq)
      with xy obtain x y where "wp_x wp = Some x" "wp_y wp = Some y"
        by auto
      then show ?thesis
        by (simp add: normalize_even_wp_def iw py_div_def)
    qed
    from map_err_total [of "enumerate 0 wps" "normalize_even_wp (length wps) s (e - s)", OF this]
    show ?thesis using False nt by (auto simp: normalize_waypoint_times_def Let_def)
  qed
qed

lemma calculate_trajectory_returns:
  assumes xy: "\<forall>wp \<in> set wps. wp_x wp \<noteq> None \<and> wp_y wp \<noteq> None"
    and mx: "list_all (\<lambda>wp. wp_time wp \<noteq> None) wps \<longrightarrow> max_raw_time wps \<noteq> 0"
    and step: "0 < step"
  shows "\<exists>traj. calculate_trajectory wps s e step = Some (Inr traj)"
proof (cases "2 \<le> length wps")
  case False
  then show ?thesis by (simp add: calculate_trajectory_def)
next
  case True
  from normalize_waypoint_times_total [OF xy mx] obtain nws where
    n: "normalize_waypoint_times wps s e = Inr nws" by blast
  from normalize_waypoint_times_Inr [OF n] True
  have sorted: "sorted (map pt_time nws)" and ne: "nws \<noteq> []" by auto
  have ok: "sample_point nws t \<noteq> Inl err" for t err
    using sample_point_sorted [OF sorted ne, of t] by auto
  from sample_loop_terminates [OF step] obtain r where
    r: "sample_loop nws e step s [] = Some r" by blast
  with sample_loop_no_error [OF ok] obtain pts where
    pts: "sample_loop nws e step s [] = Some (Inr pts)"
    by (cases r) auto
  from ne have "\<exists>traj. ensure_end nws e pts = Inr traj"
    by (cases nws) (auto simp: ensure_end_def Let_def)
  with True n pts show ?thesis
    by (auto simp: calculate_trajectory_def)
qed

lemma sample_loop_diverges:
  assumes step: "step \<le> 0" and cur: "cur \<le> e"
  shows "sample_loop nws e step cur acc \<noteq> Some (Inr pts)"
proof
  assume run: "sample_loop nws e step cur acc = Some (Inr pts)"
  let ?I = "\<lambda>(t :: real) (a :: point list). t \<le> e"
  have "\<exists>t. ?I t pts \<and> \<not> t \<le> e"
    by (rule sample_loop_invariant [OF run, where I = ?I]) (use step cur in auto)
  then show False by simp
qed

lemma calculate_trajectory_diverges:
  assumes n: "normalize_waypoint_times wps s e = Inr nws"
    and len: "2 \<le> length wps" and step: "step \<le> 0" and se: "s \<le> e"
  shows "calculate_trajectory wps s e step = None"
proof -
  from normalize_waypoint_times_Inr [OF n] len
  have sorted: "sorted (map pt_time nws)" and ne: "nws \<noteq> []" by auto
  have ok: "sample_point nws t \<noteq> Inl err" for t err
    using sample_point_sorted [OF sorted ne, of t] by auto
  have "sample_loop nws e step s [] = None"
  proof (cases "sample_loop nws e step s []")
    case (Some r)
    with sample_loop_no_error [OF ok, of e step s "[]"]
      sample_loop_diverges [OF step se, of nws "[]"]
    show ?thesis by (cases r) auto
  qed simp
  with n len show ?thesis
    by (auto simp: calculate_trajectory_def)
qed

section \<open>Lemmas on float rounding\<close>

lemma float_exponent_eq:
  assumes "power_int 2 k \<le> \<bar>x\<bar>" "\<bar>x\<bar> < power_int 2 (k + 1)"
  shows "float_exponent x = max k (- 1022)"
proof -
  have pos: "0 < \<bar>x\<bar>"
    using assms(1) zero_less_power_int [of "2::real" k] by linarith
  have "2 powr (real_of_int k + 1) = power_int 2 (k + 1)"
    using powr_real_of_int' [of 2 "k + 1"] by simp
  then have "\<lfloor>log 2 \<bar>x\<bar>\<rfloor> = k"
    using assms pos by (simp add: floor_log_eq_powr_iff powr_real_of_int')
  then show ?thesis by (simp add: float_exponent_def)
qed

lemma float_ulp_eq:
  assumes "power_int 2 k \<le> \<bar>x\<bar>" "\<bar>x\<bar> < power_int 2 (k + 1)" "- 1022 \<le> k"
  shows "float_ulp x = power_int 2 (k - 52)"
  using float_exponent_eq [OF assms(1,2)] assms(3) by (simp add: float_ulp_def)

lemma float_ulp_pos: "0 < float_ulp x"
  by (simp add: float_ulp_def)

lemma round_half_even_of_int [simp]: "round_half_even (of_int n) = n"
  by (simp add: round_half_even_def)

lemma round_half_even_error: "\<bar>of_int (round_half_even y) - y\<bar> \<le> 1 / 2"
proof -
  have "of_int \<lfloor>y\<rfloor> \<le> y" "y < of_int \<lfloor>y\<rfloor> + 1" by linarith+
  then show ?thesis
    by (auto simp: round_half_even_def Let_def)
qed

lemma round_float_error: "\<bar>round_float x - x\<bar> \<le> float_ulp x / 2"
proof (cases "x = 0")
  case True
  then show ?thesis using float_ulp_pos [of 0] by (simp add: round_float_def)
next
  case False
  let ?u = "float_ulp x"
  have u: "0 < ?u" by (rule float_ulp_pos)
  have "round_float x - x = (of_int (round_half_even (x / ?u)) - x / ?u) * ?u"
    using False u by (simp add: round_float_def field_simps)
  then have "\<bar>round_float x - x\<bar> = \<bar>of_int (round_half_even (x / ?u)) - x / ?u\<bar> * ?u"
    using u by (simp add: abs_mult)
  also have "\<dots> \<le> (1 / 2) * ?u"
    using round_half_even_error [of "x / ?u"] u by (intro mult_right_mono) simp_all
  finally show ?thesis by simp
qed

lemma float_0_5_value: "float_0_5 = 1 / 2"
proof -
  have "float_ulp (1 / 2) = power_int 2 (- 1 - 52)"
    by (rule float_ulp_eq) (simp_all add: power_int_minus)
  then have u: "float_ulp (1 / 2) = 1 / 2 ^ 53"
    by (simp add: power_int_minus inverse_eq_divide)
  have r: "round_half_even ((1 / 2) / (1 / 2 ^ 53)) = 4503599627370496"
    by (simp add: round_half_even_def Let_def)
  show ?thesis
    unfolding float_0_5_def round_float_def u r by simp
qed

lemma float_0_8_value: "float_0_8 = 3602879701896397 / 4503599627370496"
proof -
  have "float_ulp (4 / 5) = power_int 2 (- 1 - 52)"
    by (rule float_ulp_eq) (simp_all add: power_int_minus)
  then have u: "float_ulp (4 / 5) = 1 / 2 ^ 53"
    by (simp add: power_int_minus inverse_eq_divide)
  have r: "round_half_even ((4 / 5) / (1 / 2 ^ 53)) = 7205759403792794"
    by (simp add: round_half_even_def Let_def)
  show ?thesis
    unfolding float_0_8_def round_float_def u r by simp
qed

lemma round_float_exact:
  assumes "x / float_ulp x = of_int m"
  shows "round_float x = x"
proof (cases "x = 0")
  case True
  then show ?thesis by (simp add: round_float_def)
next
  case False
  from assms have "of_int m * float_ulp x = x"
    using float_ulp_pos [of x] by (simp add: field_simps)
  with False assms show ?thesis by (simp add: round_float_def)
qed

lemma float_mul_50_half: "float_mul 50 float_0_5 = 25"
proof -
  have "float_ulp 25 = power_int 2 (4 - 52)"
    by (rule float_ulp_eq) simp_all
  then have u: "float_ulp 25 = 1 / 2 ^ 48"
    by (simp add: power_int_minus inverse_eq_divide)
  have "25 / float_ulp 25 = of_int (25 * 2 ^ 48)"
    by (simp add: u)
  then have "round_float 25 = 25" by (rule round_float_exact)
  then show ?thesis by (simp add: float_mul_def float_0_5_value)
qed

lemma float_mul_43_0_8: "float_mul 43 float_0_8 = 4841369599423283 / 140737488355328"
proof -
  let ?x = "154923827181545071 / 4503599627370496 :: real"
  have "float_ulp ?x = power_int 2 (5 - 52)"
    by (rule float_ulp_eq) simp_all
  then have u: "float_ulp ?x = 1 / 2 ^ 47"
    by (simp add: power_int_minus inverse_eq_divide)
  have r: "round_half_even (?x / (1 / 2 ^ 47)) = 4841369599423283"
    by (simp add: round_half_even_def Let_def)
  have "round_float ?x = 4841369599423283 / 140737488355328"
    unfolding round_float_def u r by simp
  then show ?thesis by (simp add: float_mul_def float_0_8_value)
qed

lemma float_ulp_half:
  assumes "x \<noteq> 0" "- 1022 < float_exponent x"
  shows "float_ulp (x / 2) = float_ulp x / 2"
proof -
  let ?e = "\<lfloor>log 2 \<bar>x\<bar>\<rfloor>"
  from assms(2) have e: "- 1022 < ?e" "float_exponent x = ?e"
    by (auto simp: float_exponent_def max_def split: if_splits)
  have "log 2 \<bar>x / 2\<bar> = log 2 \<bar>x\<bar> - 1"
    using assms(1) by (simp add: log_divide)
  then have "float_exponent (x / 2) = ?e - 1"
    using e(1) by (simp add: float_exponent_def)
  moreover have "?e - 1 - 52 = (?e - 52) - 1" by simp
  ultimately have "float_ulp (x / 2) = power_int 2 ((?e - 52) - 1)"
    unfolding float_ulp_def by (simp only:)
  also have "\<dots> = power_int 2 (?e - 52) / 2"
    by (subst power_int_diff) simp_all
  finally show ?thesis by (simp add: float_ulp_def e(2))
qed

lemma float_mul_half:
  assumes "round_float sb = sb" "- 1022 < float_exponent sb"
  shows "float_mul sb float_0_5 = sb / 2"
proof (cases "sb = 0")
  case True
  then show ?thesis by (simp add: float_mul_def round_float_def)
next
  case False
  note h = float_ulp_half [OF False assms(2)]
  have q: "(sb / 2) / (float_ulp sb / 2) = sb / float_ulp sb"
    by simp
  have "round_float (sb / 2) = round_float sb / 2"
    using False unfolding round_float_def h q by simp
  with assms(1) show ?thesis
    by (simp add: float_mul_def float_0_5_value)
qed

lemma float_mul_error: "\<bar>float_mul a b - a * b\<bar> \<le> float_ulp (a * b) / 2"
  unfolding float_mul_def by (rule round_float_error)

lemma float_34_4_value: "float_34_4 = 4841369599423283 / 140737488355328"
proof -
  have "float_ulp (172 / 5) = power_int 2 (5 - 52)"
    by (rule float_ulp_eq) simp_all
  then have u: "float_ulp (172 / 5) = 1 / 2 ^ 47"
    by (simp add: power_int_minus inverse_eq_divide)
  have r: "round_half_even ((172 / 5) / (1 / 2 ^ 47)) = 4841369599423283"
    by (simp add: round_half_even_def Let_def)
  show ?thesis
    unfolding float_34_4_def round_float_def u r by simp
qed

lemma float_mul_43_half: "float_mul 43 float_0_5 = 43 / 2"
proof -
  have "float_ulp (43 / 2) = power_int 2 (4 - 52)"
    by (rule float_ulp_eq) simp_all
  then have u: "float_ulp (43 / 2) = 1 / 2 ^ 48"
    by (simp add: power_int_minus inverse_eq_divide)
  have "(43 / 2) / float_ulp (43 / 2) = of_int (43 * 2 ^ 47)"
    by (simp add: u)
  then have "round_float (43 / 2) = 43 / 2" by (rule round_float_exact)
  then show ?thesis by (simp add: float_mul_def float_0_5_value)
qed

lemma float_50: "round_float 50 = 50" "float_exponent 50 = 5"
proof -
  show e: "float_exponent 50 = 5"
    using float_exponent_eq [of 5 50] by simp
  then have u: "float_ulp 50 = 1 / 2 ^ 47"
    by (simp add: float_ulp_def power_int_minus inverse_eq_divide)
  have "50 / float_ulp 50 = of_int (50 * 2 ^ 47)"
    by (simp add: u)
  then show "round_float 50 = 50" by (rule round_float_exact)
qed

section \<open>Lemmas on the deconfliction engine\<close>

lemma interpolate_position_Inr: "\<exists>p. interpolate_position a b t = Inr p"
  by (simp add: interpolate_position_def py_div_def Let_def)

lemma update_surrounding_keeps:
  "fst ba \<noteq> None \<or> snd ba \<noteq> None \<or> pt_time p \<noteq> t \<Longrightarrow>
   fst (update_surrounding t p ba) \<noteq> None \<or> snd (update_surrounding t p ba) \<noteq> None"
  by (cases ba) (auto simp: update_surrounding_def split: option.splits)

lemma fold_update_surrounding_found:
  "fst ba \<noteq> None \<or> snd ba \<noteq> None \<or> (\<exists>p \<in> set traj. pt_time p \<noteq> t) \<Longrightarrow>
   fold (update_surrounding t) traj ba \<noteq> (None, None)"
proof (induction traj arbitrary: ba)
  case Nil
  then show ?case by (cases ba) auto
next
  case (Cons p traj)
  show ?case
  proof (cases "fst ba \<noteq> None \<or> snd ba \<noteq> None \<or> pt_time p \<noteq> t")
    case True
    from update_surrounding_keeps [OF this]
    have "fold (update_surrounding t) traj (update_surrounding t p ba) \<noteq> (None, None)"
      by (intro Cons.IH) auto
    then show ?thesis by simp
  next
    case False
    with Cons.prems have "\<exists>q \<in> set traj. pt_time q \<noteq> t" by auto
    then show ?thesis by (simp add: Cons.IH)
  qed
qed

lemma get_position_at_time_Inr: "\<exists>po. get_position_at_time traj t = Inr po"
proof (cases "find (\<lambda>p. pt_time p = t) traj")
  case (Some p)
  then show ?thesis by (simp add: get_position_at_time_def)
next
  case None
  obtain b a where f: "fold (update_surrounding t) traj (None, None) = (b, a)"
    by (cases "fold (update_surrounding t) traj (None, None)")
  show ?thesis
    using interpolate_position_Inr [of "the b" "the a" t]
    by (cases b; cases a) (auto simp: get_position_at_time_def None f)
qed

lemma get_position_at_time_nonempty:
  assumes "traj \<noteq> []"
  shows "\<exists>p. get_position_at_time traj t = Inr (Some p)"
proof (cases "find (\<lambda>p. pt_time p = t) traj")
  case (Some p)
  then show ?thesis by (simp add: get_position_at_time_def)
next
  case None
  then have "\<forall>p \<in> set traj. pt_time p \<noteq> t"
    by (auto simp: find_None_iff)
  with assms have "\<exists>p \<in> set traj. pt_time p \<noteq> t"
    by (cases traj) auto
  then have nn: "fold (update_surrounding t) traj (None, None) \<noteq> (None, None)"
    by (intro fold_update_surrounding_found) simp
  obtain b a where f: "fold (update_surrounding t) traj (None, None) = (b, a)"
    by (cases "fold (update_surrounding t) traj (None, None)")
  show ?thesis
    using interpolate_position_Inr [of "the b" "the a" t] nn
    by (cases b; cases a) (auto simp: get_position_at_time_def None f)
qed

lemma get_position_at_time_empty: "get_position_at_time [] t = Inr None"
  by (simp add: get_position_at_time_def)

lemma calculate_distance_3d_nonneg: "0 \<le> calculate_distance_3d a b"
  by (simp add: calculate_distance_3d_def Let_def)

lemma create_conflict_record_Inr:
  "sb \<noteq> 0 \<Longrightarrow> \<exists>c. create_conflict_record pp op t d fid sb = Inr c"
  by (simp add: create_conflict_record_def py_div_def Let_def)

lemma check_instant_Inr: "\<exists>cs. check_instant p o' fid sb t = Inr cs"
proof -
  obtain pp where pp: "get_position_at_time p t = Inr pp"
    using get_position_at_time_Inr by blast
  obtain op where op: "get_position_at_time o' t = Inr op"
    using get_position_at_time_Inr by blast
  show ?thesis
  proof (cases "\<exists>a b. pp = Some a \<and> op = Some b \<and> calculate_distance_3d a b < sb")
    case True
    then obtain a b where ab: "pp = Some a" "op = Some b" "calculate_distance_3d a b < sb"
      by blast
    with calculate_distance_3d_nonneg [of a b] have "sb \<noteq> 0" by auto
    from create_conflict_record_Inr [OF this] ab show ?thesis
      by (auto simp: check_instant_def pp op Let_def) (metis bind_err_Inr)
  next
    case False
    then show ?thesis
      by (auto simp: check_instant_def pp op Let_def split: option.splits)
  qed
qed

lemma check_instant_all:
  assumes run: "check_instant p o' fid sb t = Inr cs"
    and rec: "\<And>pp op d c. d < sb \<Longrightarrow> 0 \<le> d \<Longrightarrow>
           create_conflict_record pp op t d fid sb = Inr c \<Longrightarrow> P c"
  shows "\<forall>c \<in> set cs. P c"
proof -
  from run obtain pp op where pp: "get_position_at_time p t = Inr pp"
    and op: "get_position_at_time o' t = Inr op"
    and body: "(case (pp, op) of
          (Some a, Some b) \<Rightarrow>
            let distance = calculate_distance_3d a b in
            if distance < sb then
              bind_err (create_conflict_record a b t distance fid sb) (\<lambda>c. Inr [c])
            else Inr []
        | _ \<Rightarrow> Inr []) = Inr cs"
    by (auto simp: check_instant_def bind_err_eq_Inr)
  show ?thesis
  proof (cases "\<exists>a b. pp = Some a \<and> op = Some b \<and> calculate_distance_3d a b < sb")
    case True
    then obtain a b where ab: "pp = Some a" "op = Some b" "calculate_distance_3d a b < sb"
      by blast
    with body obtain c where
      "create_conflict_record a b t (calculate_distance_3d a b) fid sb = Inr c" "cs = [c]"
      by (auto simp: bind_err_eq_Inr Let_def)
    with rec [OF ab(3) calculate_distance_3d_nonneg] show ?thesis by simp
  next
    case False
    with body have "cs = []"
      by (auto simp: Let_def split: option.splits if_splits)
    then show ?thesis by simp
  qed
qed

lemma detect_trajectory_conflicts_Inr: "\<exists>cs. detect_trajectory_conflicts p o' fid sb = Inr cs"
proof -
  from map_err_total [of "all_times p o'" "check_instant p o' fid sb"] check_instant_Inr
  obtain found where "map_err (check_instant p o' fid sb) (all_times p o') = Inr found"
    by blast
  then show ?thesis by (simp add: detect_trajectory_conflicts_def)
qed

lemma detect_trajectory_conflicts_all:
  assumes run: "detect_trajectory_conflicts p o' fid sb = Inr cs"
    and rec: "\<And>pp op t d c. d < sb \<Longrightarrow> 0 \<le> d \<Longrightarrow>
           create_conflict_record pp op t d fid sb = Inr c \<Longrightarrow> P c"
  shows "\<forall>c \<in> set cs. P c"
proof -
  from run obtain found where
    f: "list_all2 (\<lambda>t cs. check_instant p o' fid sb t = Inr cs) (all_times p o') found"
    and cs: "cs = concat found"
    by (auto simp: detect_trajectory_conflicts_def bind_err_eq_Inr map_err_eq_Inr)
  have "\<forall>c \<in> set ys. P c" if "ys \<in> set found" for ys
  proof -
    from f that obtain t where "check_instant p o' fid sb t = Inr ys"
      by (auto simp: list_all2_conv_all_nth in_set_conv_nth)
    then show ?thesis by (rule check_instant_all) (rule rec)
  qed
  then show ?thesis by (auto simp: cs)
qed

lemma check_loop_Inr: "\<exists>cs n. check_loop p sb os acc = Inr (cs, n)"
proof (induction os arbitrary: acc)
  case Nil
  show ?case by (cases acc) simp
next
  case (Cons f os)
  obtain cs0 n0 where acc: "acc = (cs0, n0)" by (cases acc)
  obtain tc where "detect_trajectory_conflicts p (trajectory f) (flight_id f) sb = Inr tc"
    using detect_trajectory_conflicts_Inr by blast
  then show ?case using Cons.IH by (simp add: acc)
qed

lemma check_loop_result:
  assumes "check_loop p sb os (cs0, n0) = Inr (cs, n)"
    and "\<forall>c \<in> set cs0. P c"
    and rec: "\<And>pp op t d fid c. d < sb \<Longrightarrow> 0 \<le> d \<Longrightarrow>
           create_conflict_record pp op t d fid sb = Inr c \<Longrightarrow> P c"
  shows "(\<forall>c \<in> set cs. P c)
         \<and> n = n0 + (\<Sum>f\<leftarrow>os. length p * length (trajectory f))"
  using assms(1,2)
proof (induction os arbitrary: cs0 n0)
  case Nil
  then show ?case by simp
next
  case (Cons f os)
  from Cons.prems(1) obtain tc where
    d: "detect_trajectory_conflicts p (trajectory f) (flight_id f) sb = Inr tc"
    and l: "check_loop p sb os (cs0 @ tc, n0 + length p * length (trajectory f)) = Inr (cs, n)"
    by (auto simp: bind_err_eq_Inr)
  have "\<forall>c \<in> set tc. P c"
    using d by (rule detect_trajectory_conflicts_all) (rule rec)
  with Cons.prems(2) have "\<forall>c \<in> set (cs0 @ tc). P c" by auto
  from Cons.IH [OF l this] show ?case by simp
qed

lemma fold_classify_spatial:
  assumes "\<forall>c \<in> set cs. c_type c = ''spatial''"
  shows "fold classify cs s =
           s\<lparr>spatial_violations := spatial_violations s + length cs\<rparr>"
  using assms
proof (induction cs arbitrary: s)
  case Nil
  show ?case by simp
next
  case (Cons c cs)
  then show ?case by (simp add: classify_def)
qed

lemma check_conflicts_Inr: "\<exists>r. check_conflicts p os sb = Inr r"
proof -
  obtain cs n where "check_loop p sb os ([], 0) = Inr (cs, n)"
    using check_loop_Inr by blast
  then show ?thesis by (simp add: check_conflicts_def Let_def)
qed

lemma check_conflicts_result:
  assumes "check_conflicts p os sb = Inr r"
  shows "\<exists>cs n. check_loop p sb os ([], 0) = Inr (cs, n)
           \<and> conflicts r = sort_key (\<lambda>c. (c_severity_score c, c_time c)) cs
           \<and> summary r = fold classify cs \<lparr>total_checks = n, spatial_violations = 0,
                 temporal_violations = 0, safe_segments = 0\<rparr>
           \<and> is_safe r = (conflicts r = [])
           \<and> total_conflicts r = length (conflicts r)"
  using assms
  by (auto simp: check_conflicts_def bind_err_eq_Inr Let_def)

lemma check_conflicts_all:
  assumes run: "check_conflicts p os sb = Inr r"
    and rec: "\<And>pp op t d fid c. d < sb \<Longrightarrow> 0 \<le> d \<Longrightarrow>
           create_conflict_record pp op t d fid sb = Inr c \<Longrightarrow> P c"
  shows "\<forall>c \<in> set (conflicts r). P c"
proof -
  from check_conflicts_result [OF run] obtain cs n where
    l: "check_loop p sb os ([], 0) = Inr (cs, n)"
    and c: "conflicts r = sort_key (\<lambda>c. (c_severity_score c, c_time c)) cs"
    by blast
  have "(\<forall>c \<in> set cs. P c) \<and> n = 0 + (\<Sum>f\<leftarrow>os. length p * length (trajectory f))"
    by (rule check_loop_result [OF l]) (simp, rule rec)
  then show ?thesis by (simp add: c)
qed

lemma sqrt_25: "sqrt 25 = 5"
  by (rule real_sqrt_unique) simp_all

lemma sqrt_11025: "sqrt 11025 = 105"
  by (rule real_sqrt_unique) simp_all

lemma example_all_times:
  "all_times example_primary (trajectory example_other) = [110, 120]"
  by (simp add: all_times_def example_primary_def example_other_def)

lemma example_detect:
  "detect_trajectory_conflicts example_primary (trajectory example_other)
     (flight_id example_other) 50 = Inr [example_conflict]"
  unfolding detect_trajectory_conflicts_def example_all_times
  by (simp add: check_instant_def get_position_at_time_def calculate_distance_3d_def
      create_conflict_record_def py_div_def Let_def sqrt_25 sqrt_11025 float_mul_50_half
      example_conflict_def example_primary_def example_other_def)

lemma example_report_eval:
  "check_conflicts example_primary [example_other] 50 = Inr example_report"
  by (simp add: check_conflicts_def example_detect classify_def example_report_def Let_def)
     (simp add: example_conflict_def example_primary_def example_other_def)

lemma create_conflict_record_fields:
  assumes "create_conflict_record pp op t d fid sb = Inr c"
  shows "c_type c = ''spatial'' \<and> c_time c = t \<and> c_distance c = d \<and> c_safety_buffer c = sb
         \<and> sb \<noteq> 0 \<and> c_severity_score c = max 0 ((sb - d) / sb)
         \<and> c_severity c = (if d < float_mul sb float_0_5 then ''HIGH''
                            else if d < float_mul sb float_0_8 then ''MEDIUM'' else ''LOW'')
         \<and> c_primary_position c = pp \<and> c_other_position c = op
         \<and> c_other_flight_id c = fid"
  using assms
  by (auto simp: create_conflict_record_def bind_err_eq_Inr py_div_eq_Inr Let_def)

lemma boundary_report_eval:
  "check_conflicts boundary_primary [boundary_other] 43 = Inr boundary_report"
proof -
  have pos: "0 \<le> float_34_4" by (simp add: float_34_4_value)
  have d: "calculate_distance_3d (hd boundary_primary) (hd (trajectory boundary_other)) = float_34_4"
    using pos by (simp add: calculate_distance_3d_def boundary_primary_def boundary_other_def)
  have t: "all_times boundary_primary (trajectory boundary_other) = [0]"
    by (simp add: all_times_def boundary_primary_def boundary_other_def)
  have g: "get_position_at_time boundary_primary 0 = Inr (Some (hd boundary_primary))"
    "get_position_at_time (trajectory boundary_other) 0 = Inr (Some (hd (trajectory boundary_other)))"
    by (simp_all add: get_position_at_time_def boundary_primary_def boundary_other_def)
  have r: "create_conflict_record (hd boundary_primary) (hd (trajectory boundary_other)) 0
             float_34_4 ''UAV_002'' 43 = Inr boundary_conflict"
    by (simp add: create_conflict_record_def py_div_def Let_def float_mul_43_half
        float_mul_43_0_8 boundary_conflict_def boundary_primary_def boundary_other_def)
       (simp add: float_34_4_value)
  have lt: "float_34_4 < 43" by (simp add: float_34_4_value)
  have fid: "flight_id boundary_other = ''UAV_002''"
    by (simp add: boundary_other_def)
  have "detect_trajectory_conflicts boundary_primary (trajectory boundary_other)
          (flight_id boundary_other) 43 = Inr [boundary_conflict]"
    unfolding detect_trajectory_conflicts_def t
    by (simp add: check_instant_def g d lt Let_def fid r)
  then show ?thesis
    by (simp add: check_conflicts_def classify_def boundary_report_def Let_def)
       (simp add: boundary_conflict_def boundary_primary_def boundary_other_def)
qed

lemma find_snoc:
  "find P (xs @ [x]) = (case find P xs of Some y \<Rightarrow> Some y | None \<Rightarrow> if P x then Some x else None)"
  by (induction xs) auto

lemma nearest_earlier_snoc_new:
  assumes "pt_time x < t" "\<forall>q \<in> set xs. pt_time q < t \<longrightarrow> pt_time q < pt_time x"
  shows "nearest_earlier (xs @ [x]) t x"
proof -
  have "find (\<lambda>q. pt_time q = pt_time x) xs = None"
    using assms by (auto simp: find_None_iff)
  with assms show ?thesis
    by (auto simp: nearest_earlier_def find_snoc)
qed

lemma nearest_earlier_snoc_keep:
  assumes "nearest_earlier xs t b" "pt_time x < t \<longrightarrow> pt_time x \<le> pt_time b"
  shows "nearest_earlier (xs @ [x]) t b"
  using assms by (auto simp: nearest_earlier_def find_snoc)

lemma nearest_later_snoc_new:
  assumes "t < pt_time x" "\<forall>q \<in> set xs. t < pt_time q \<longrightarrow> pt_time x < pt_time q"
  shows "nearest_later (xs @ [x]) t x"
proof -
  have "find (\<lambda>q. pt_time q = pt_time x) xs = None"
    using assms by (auto simp: find_None_iff)
  with assms show ?thesis
    by (auto simp: nearest_later_def find_snoc)
qed

lemma nearest_later_snoc_keep:
  assumes "nearest_later xs t a" "t < pt_time x \<longrightarrow> pt_time a \<le> pt_time x"
  shows "nearest_later (xs @ [x]) t a"
  using assms by (auto simp: nearest_later_def find_snoc)

lemma fold_update_surrounding_nearest:
  "fold (update_surrounding t) traj (None, None) = (b, a) \<Longrightarrow>
   (case b of None \<Rightarrow> \<forall>q \<in> set traj. \<not> pt_time q < t | Some p \<Rightarrow> nearest_earlier traj t p)
   \<and> (case a of None \<Rightarrow> \<forall>q \<in> set traj. \<not> t < pt_time q | Some p \<Rightarrow> nearest_later traj t p)"
proof (induction traj arbitrary: b a rule: rev_induct)
  case Nil
  then show ?case by simp
next
  case (snoc x xs)
  obtain b0 a0 where f0: "fold (update_surrounding t) xs (None, None) = (b0, a0)"
    by (cases "fold (update_surrounding t) xs (None, None)")
  from snoc.IH [OF f0]
  have B: "case b0 of None \<Rightarrow> \<forall>q \<in> set xs. \<not> pt_time q < t | Some p \<Rightarrow> nearest_earlier xs t p"
    and A: "case a0 of None \<Rightarrow> \<forall>q \<in> set xs. \<not> t < pt_time q | Some p \<Rightarrow> nearest_later xs t p"
    by simp_all
  from snoc.prems f0 have step: "update_surrounding t x (b0, a0) = (b, a)" by simp
  have earlier: "case b of None \<Rightarrow> \<forall>q \<in> set (xs @ [x]). \<not> pt_time q < t
                 | Some p \<Rightarrow> nearest_earlier (xs @ [x]) t p"
  proof (cases "pt_time x < t")
    case True
    show ?thesis
    proof (cases b0)
      case None
      with step True have "b = Some x" by (simp add: update_surrounding_def)
      moreover from B None have "nearest_earlier (xs @ [x]) t x"
        by (intro nearest_earlier_snoc_new True) auto
      ultimately show ?thesis by simp
    next
      case (Some p)
      with B have np: "nearest_earlier xs t p" by simp
      show ?thesis
      proof (cases "pt_time x > pt_time p")
        case gt: True
        with step True Some have "b = Some x" by (simp add: update_surrounding_def)
        moreover from np gt have "nearest_earlier (xs @ [x]) t x"
          by (intro nearest_earlier_snoc_new True) (auto simp: nearest_earlier_def)
        ultimately show ?thesis by simp
      next
        case le: False
        with step True Some have "b = Some p" by (simp add: update_surrounding_def)
        moreover from np le have "nearest_earlier (xs @ [x]) t p"
          by (intro nearest_earlier_snoc_keep) auto
        ultimately show ?thesis by simp
      qed
    qed
  next
    case False
    with step have "b = b0"
      by (auto simp: update_surrounding_def split: option.splits if_splits)
    with B False show ?thesis
      by (cases b0) (auto intro: nearest_earlier_snoc_keep)
  qed
  have later: "case a of None \<Rightarrow> \<forall>q \<in> set (xs @ [x]). \<not> t < pt_time q
                 | Some p \<Rightarrow> nearest_later (xs @ [x]) t p"
  proof (cases "t < pt_time x")
    case True
    then have nl: "\<not> pt_time x < t" by simp
    show ?thesis
    proof (cases a0)
      case None
      with step True nl have "a = Some x" by (simp add: update_surrounding_def)
      moreover from A None have "nearest_later (xs @ [x]) t x"
        by (intro nearest_later_snoc_new True) auto
      ultimately show ?thesis by simp
    next
      case (Some p)
      with A have np: "nearest_later xs t p" by simp
      show ?thesis
      proof (cases "pt_time x < pt_time p")
        case lt: True
        with step True nl Some have "a = Some x" by (simp add: update_surrounding_def)
        moreover from np lt have "nearest_later (xs @ [x]) t x"
          by (intro nearest_later_snoc_new True) (auto simp: nearest_later_def)
        ultimately show ?thesis by simp
      next
        case ge: False
        with step True nl Some have "a = Some p" by (simp add: update_surrounding_def)
        moreover from np ge have "nearest_later (xs @ [x]) t p"
          by (intro nearest_later_snoc_keep) auto
        ultimately show ?thesis by simp
      qed
    qed
  next
    case False
    with step have "a = a0"
      by (auto simp: update_surrounding_def split: option.splits if_splits)
    with A False show ?thesis
      by (cases a0) (auto intro: nearest_later_snoc_keep)
  qed
  from earlier later show ?case by simp
qed

lemma interpolate_position_between:
  assumes "pt_time b < t" "t < pt_time a"
  shows "interpolate_position b a t =
    Inr \<lparr>pt_time = t,
         pt_x = pt_x b + ((t - pt_time b) / (pt_time a - pt_time b)) * (pt_x a - pt_x b),
         pt_y = pt_y b + ((t - pt_time b) / (pt_time a - pt_time b)) * (pt_y a - pt_y b),
         pt_z = pt_z b + ((t - pt_time b) / (pt_time a - pt_time b)) * (pt_z a - pt_z b),
         pt_speed = None, pt_heading = None\<rparr>"
proof -
  let ?r = "(t - pt_time b) / (pt_time a - pt_time b)"
  from assms have "0 < ?r" "?r < 1" by simp_all
  then have "max 0 (min 1 ?r) = ?r" by simp
  with assms show ?thesis
    by (simp add: interpolate_position_def py_div_def Let_def)
qed

lemma find_Some_mem: "find P xs = Some x \<Longrightarrow> x \<in> set xs \<and> P x"
  by (induction xs) (auto split: if_splits)

lemma get_position_at_time_exact:
  "find (\<lambda>q. pt_time q = t) traj = Some p \<Longrightarrow> get_position_at_time traj t = Inr (Some p)"
  by (simp add: get_position_at_time_def)

lemma get_position_at_time_routes:
  assumes ne: "\<forall>q \<in> set traj. pt_time q \<noteq> t"
  shows "((\<exists>q \<in> set traj. pt_time q < t) \<and> (\<exists>q \<in> set traj. t < pt_time q) \<longrightarrow>
            (\<exists>b a. nearest_earlier traj t b \<and> nearest_later traj t a
               \<and> get_position_at_time traj t =
                   Inr (Some \<lparr>pt_time = t,
                     pt_x = pt_x b + ((t - pt_time b) / (pt_time a - pt_time b)) * (pt_x a - pt_x b),
                     pt_y = pt_y b + ((t - pt_time b) / (pt_time a - pt_time b)) * (pt_y a - pt_y b),
                     pt_z = pt_z b + ((t - pt_time b) / (pt_time a - pt_time b)) * (pt_z a - pt_z b),
                     pt_speed = None, pt_heading = None\<rparr>)))
       \<and> ((\<exists>q \<in> set traj. pt_time q < t) \<and> \<not> (\<exists>q \<in> set traj. t < pt_time q) \<longrightarrow>
            (\<exists>b. nearest_earlier traj t b \<and> get_position_at_time traj t = Inr (Some b)))
       \<and> (\<not> (\<exists>q \<in> set traj. pt_time q < t) \<and> (\<exists>q \<in> set traj. t < pt_time q) \<longrightarrow>
            (\<exists>a. nearest_later traj t a \<and> get_position_at_time traj t = Inr (Some a)))"
proof -
  from ne have nf: "find (\<lambda>q. pt_time q = t) traj = None"
    by (auto simp: find_None_iff)
  obtain b a where f: "fold (update_surrounding t) traj (None, None) = (b, a)"
    by (cases "fold (update_surrounding t) traj (None, None)")
  note n = fold_update_surrounding_nearest [OF f]
  show ?thesis
  proof (cases b)
    case bn: None
    show ?thesis
    proof (cases a)
      case None
      with bn n show ?thesis by auto
    next
      case (Some a')
      with bn n have "nearest_later traj t a'" "\<forall>q \<in> set traj. \<not> pt_time q < t" by simp_all
      moreover have "get_position_at_time traj t = Inr (Some a')"
        by (simp add: get_position_at_time_def nf f bn Some)
      ultimately show ?thesis by auto
    qed
  next
    case bs: (Some b')
    show ?thesis
    proof (cases a)
      case None
      with bs n have "nearest_earlier traj t b'" "\<forall>q \<in> set traj. \<not> t < pt_time q" by simp_all
      moreover have "get_position_at_time traj t = Inr (Some b')"
        by (simp add: get_position_at_time_def nf f bs None)
      ultimately show ?thesis by auto
    next
      case (Some a')
      with bs n have nb: "nearest_earlier traj t b'" and na: "nearest_later traj t a'" by simp_all
      then have lt: "pt_time b' < t" "t < pt_time a'"
        by (simp_all add: nearest_earlier_def nearest_later_def)
      have "get_position_at_time traj t =
              Inr (Some \<lparr>pt_time = t,
                     pt_x = pt_x b' + ((t - pt_time b') / (pt_time a' - pt_time b')) * (pt_x a' - pt_x b'),
                     pt_y = pt_y b' + ((t - pt_time b') / (pt_time a' - pt_time b')) * (pt_y a' - pt_y b'),
                     pt_z = pt_z b' + ((t - pt_time b') / (pt_time a' - pt_time b')) * (pt_z a' - pt_z b'),
                     pt_speed = None, pt_heading = None\<rparr>)"
        by (simp add: get_position_at_time_def nf f bs Some interpolate_position_between [OF lt])
      moreover from nb have "b' \<in> set traj"
        by (auto simp: nearest_earlier_def dest: find_Some_mem)
      with lt have "\<exists>q \<in> set traj. pt_time q < t" by blast
      moreover from na have "a' \<in> set traj"
        by (auto simp: nearest_later_def dest: find_Some_mem)
      with lt have "\<exists>q \<in> set traj. t < pt_time q" by blast
      ultimately show ?thesis using nb na by blast
    qed
  qed
qed

lemma all_times_spec:
  "set (all_times p o') = pt_time ` set p \<union> pt_time ` set o'
   \<and> sorted (all_times p o') \<and> distinct (all_times p o')"
  by (simp add: all_times_def)

lemma check_instant_times:
  assumes "check_instant p o' fid sb t = Inr ys"
  shows "\<forall>c \<in> set ys. c_time c = t"
  using assms
  by (rule check_instant_all) (auto dest: create_conflict_record_fields)

lemma concat_filter_instant:
  assumes "list_all2 (\<lambda>t ys. check_instant p o' fid sb t = Inr ys) ts found"
    and "distinct ts" and "tp \<in> set ts" and "check_instant p o' fid sb tp = Inr ys"
  shows "filter (\<lambda>c. c_time c = tp) (concat found) = ys"
  using assms
proof (induction ts found rule: list_all2_induct)
  case Nil
  then show ?case by simp
next
  case (Cons t ts y found)
  have none: "filter (\<lambda>c. c_time c = tp) (concat found) = []" if "tp \<notin> set ts"
  proof -
    have "c_time c \<noteq> tp" if "c \<in> set (concat found)" for c
    proof -
      from that obtain zs where zs: "zs \<in> set found" "c \<in> set zs" by auto
      from zs(1) obtain i where i: "i < length found" "found ! i = zs"
        by (auto simp: in_set_conv_nth)
      with Cons.hyps(2) have "ts ! i \<in> set ts" "check_instant p o' fid sb (ts ! i) = Inr zs"
        by (auto simp: list_all2_conv_all_nth)
      then obtain t' where t': "t' \<in> set ts" "check_instant p o' fid sb t' = Inr zs"
        by blast
      from check_instant_times [OF t'(2)] zs(2) have "c_time c = t'" by simp
      with t'(1) \<open>tp \<notin> set ts\<close> show ?thesis by auto
    qed
    then show ?thesis by (auto simp: filter_empty_conv)
  qed
  show ?case
  proof (cases "t = tp")
    case True
    with Cons.hyps(1) Cons.prems(3) have "y = ys" by simp
    moreover from check_instant_times [OF Cons.prems(3)]
    have "filter (\<lambda>c. c_time c = tp) ys = ys" by (auto simp: filter_id_conv)
    moreover from True Cons.prems(1) have "tp \<notin> set ts" by simp
    ultimately show ?thesis using none by simp
  next
    case False
    from check_instant_times [OF Cons.hyps(1)] False
    have "filter (\<lambda>c. c_time c = tp) y = []" by (auto simp: filter_empty_conv)
    moreover from False Cons.prems have "filter (\<lambda>c. c_time c = tp) (concat found) = ys"
      by (intro Cons.IH) auto
    ultimately show ?thesis by simp
  qed
qed

lemma detect_trajectory_conflicts_instant:
  assumes "detect_trajectory_conflicts p o' fid sb = Inr cs"
    and "tp \<in> set (all_times p o')" and "check_instant p o' fid sb tp = Inr ys"
  shows "filter (\<lambda>c. c_time c = tp) cs = ys"
proof -
  from assms(1) obtain found where
    f: "list_all2 (\<lambda>t ys. check_instant p o' fid sb t = Inr ys) (all_times p o') found"
    and cs: "cs = concat found"
    by (auto simp: detect_trajectory_conflicts_def bind_err_eq_Inr map_err_eq_Inr)
  from concat_filter_instant [OF f _ assms(2,3)] all_times_spec [of p o'] cs
  show ?thesis by simp
qed

lemma detect_trajectory_conflicts_empty:
  "detect_trajectory_conflicts p [] fid sb = Inr []"
  "detect_trajectory_conflicts [] o' fid sb = Inr []"
proof -
  have skip: "check_instant p [] fid sb t = Inr []" "check_instant [] o' fid sb t = Inr []" for t
  proof -
    obtain pp where "get_position_at_time p t = Inr pp"
      using get_position_at_time_Inr by blast
    then show "check_instant p [] fid sb t = Inr []"
      by (simp add: check_instant_def get_position_at_time_empty split: option.splits)
    show "check_instant [] o' fid sb t = Inr []"
      using get_position_at_time_Inr [of o' t]
      by (auto simp: check_instant_def get_position_at_time_empty)
  qed
  have m: "map_err (\<lambda>t. Inr []) ts = (Inr (replicate (length ts) []) :: py_error + conflict list list)"
    for ts :: "real list"
    by (induction ts) simp_all
  have "check_instant p [] fid sb = (\<lambda>t. Inr [])" "check_instant [] o' fid sb = (\<lambda>t. Inr [])"
    by (intro ext, rule skip)+
  then show "detect_trajectory_conflicts p [] fid sb = Inr []"
    "detect_trajectory_conflicts [] o' fid sb = Inr []"
    by (simp_all add: detect_trajectory_conflicts_def m)
qed

lemma example_lookups:
  "get_position_at_time example_primary 110 = Inr (Some (hd example_primary))"
  "get_position_at_time example_primary 115 =
     Inr (Some \<lparr>pt_time = 115, pt_x = 50, pt_y = 50, pt_z = 110,
                pt_speed = None, pt_heading = None\<rparr>)"
  "get_position_at_time example_primary 100 = Inr (Some (hd example_primary))"
  "get_position_at_time example_primary 130 = Inr (Some (last example_primary))"
  by (simp_all add: get_position_at_time_def update_surrounding_def interpolate_position_def
      py_div_def Let_def example_primary_def)

section \<open>Claims on the trajectory calculator\<close>

text \<open>
  C7. A waypoint list with fewer than two entries (empty or a single waypoint) yields the
  empty sequence, without a raise and without entering the sampling loop, whatever
  \<open>start_time\<close>, \<open>end_time\<close> and \<open>time_step\<close> are.
\<close>

theorem short_waypoint_list_empty:
  "length wps < 2 \<Longrightarrow> calculate_trajectory wps s e step = Some (Inr [])"
  by (simp add: calculate_trajectory_def)

theorem short_waypoint_list_empty_witness:
  "length [\<lparr>wp_x = Some 0, wp_y = Some 0, wp_z = None, wp_time = Some 0\<rparr>] < 2
   \<and> calculate_trajectory [\<lparr>wp_x = Some 0, wp_y = Some 0, wp_z = None, wp_time = Some 0\<rparr>] 0 10 5
       = Some (Inr [])"
  using short_waypoint_list_empty
    [of "[\<lparr>wp_x = Some 0, wp_y = Some 0, wp_z = None, wp_time = Some 0\<rparr>]" 0 10 5]
  by simp

text \<open>
  C3. When every waypoint carries an explicit \<open>time\<close> and the normalization returns, each
  waypoint's time has become \<open>start_time + (raw_time / max_raw_time) * (end_time - start_time)\<close>
  with \<open>max_raw_time\<close> the largest raw time of the whole waypoint set, \<open>x\<close> and \<open>y\<close> are
  carried over, an absent \<open>z\<close> has become 50, and the result is that list sorted by the
  normalized time.
\<close>

theorem normalize_explicit_times:
  assumes "normalize_waypoint_times wps s e = Inr nws"
    and "\<forall>wp \<in> set wps. wp_time wp \<noteq> None"
  shows "\<exists>normalized.
           list_all2 (\<lambda>wp p. \<exists>raw. wp_time wp = Some raw
                \<and> pt_time p = spec_normalized_time s e raw (max_raw_time wps)
                \<and> wp_x wp = Some (pt_x p) \<and> wp_y wp = Some (pt_y p)
                \<and> pt_z p = (case wp_z wp of None \<Rightarrow> 50 | Some z \<Rightarrow> z)) wps normalized
           \<and> nws = sort_key pt_time normalized
           \<and> sorted (map pt_time nws)"
proof (cases "wps = []")
  case True
  with assms(1) have "nws = []"
    by (simp add: normalize_waypoint_times_def)
  with True show ?thesis by simp
next
  case False
  from assms(2) have all: "list_all (\<lambda>wp. wp_time wp \<noteq> None) wps"
    by (simp add: list_all_iff)
  with assms(1) False obtain normalized where
    m: "map_err (normalize_explicit_wp wps s (e - s)) wps = Inr normalized"
    and nws: "nws = sort_key pt_time normalized"
    by (auto simp: normalize_waypoint_times_def Let_def bind_err_eq_Inr)
  from m have "list_all2 (\<lambda>wp p. normalize_explicit_wp wps s (e - s) wp = Inr p) wps normalized"
    by (simp add: map_err_eq_Inr)
  then have "list_all2 (\<lambda>wp p. \<exists>raw. wp_time wp = Some raw
                \<and> pt_time p = spec_normalized_time s e raw (max_raw_time wps)
                \<and> wp_x wp = Some (pt_x p) \<and> wp_y wp = Some (pt_y p)
                \<and> pt_z p = (case wp_z wp of None \<Rightarrow> 50 | Some z \<Rightarrow> z)) wps normalized"
    by (rule list_all2_mono) (auto dest!: normalize_explicit_wp_Inr simp: spec_normalized_time_def)
  with nws show ?thesis by auto
qed

theorem normalize_explicit_times_witness:
  "normalize_waypoint_times example_waypoints 0 10 = Inr example_normalized
   \<and> list_all (\<lambda>wp. wp_time wp \<noteq> None) example_waypoints
   \<and> max_raw_time example_waypoints = 20
   \<and> map pt_time example_normalized = [5, 10]
   \<and> (\<exists>normalized.
           list_all2 (\<lambda>wp p. \<exists>raw. wp_time wp = Some raw
                \<and> pt_time p = spec_normalized_time 0 10 raw (max_raw_time example_waypoints)
                \<and> wp_x wp = Some (pt_x p) \<and> wp_y wp = Some (pt_y p)
                \<and> pt_z p = (case wp_z wp of None \<Rightarrow> 50 | Some z \<Rightarrow> z)) example_waypoints normalized
           \<and> example_normalized = sort_key pt_time normalized
           \<and> sorted (map pt_time example_normalized))"
proof -
  have all: "\<forall>wp \<in> set example_waypoints. wp_time wp \<noteq> None"
    by (simp add: example_waypoints_def)
  have mx: "max_raw_time example_waypoints = 20"
    by (simp add: max_raw_time_def example_waypoints_def)
  have ts: "map pt_time example_normalized = [5, 10]"
    by (simp add: example_normalized_def)
  from normalize_explicit_times [OF example_normalized_eval all] all mx ts
  show ?thesis
    by (simp add: example_normalized_eval list_all_iff)
qed

text \<open>
  C4. For a waypoint list with at least two entries, \<open>start_time < end_time\<close> and a positive
  \<open>time_step\<close>, a returned trajectory is not empty, its times never decrease (they
  increase strictly), its first time is at or after \<open>start_time\<close> and its last time is
  \<open>end_time\<close>. It is the list of samples of the loop, followed by one more point at
  \<open>end_time\<close> exactly when the last sample is strictly earlier.
\<close>

theorem trajectory_time_ordering:
  assumes ret: "calculate_trajectory wps s e step = Some (Inr traj)"
    and len: "2 \<le> length wps" and se: "s < e" and step: "0 < step"
  shows "traj \<noteq> [] \<and> sorted (map pt_time traj) \<and> sorted_wrt (<) (map pt_time traj)
         \<and> s \<le> pt_time (hd traj) \<and> pt_time (last traj) = e
         \<and> (\<exists>nws pts. normalize_waypoint_times wps s e = Inr nws
               \<and> sample_loop nws e step s [] = Some (Inr pts) \<and> pts \<noteq> []
               \<and> traj = (if pt_time (last pts) < e
                          then pts @ [\<lparr>pt_time = e, pt_x = pt_x (last nws),
                                       pt_y = pt_y (last nws), pt_z = pt_z (last nws),
                                       pt_speed = Some 0,
                                       pt_heading = pt_heading (last pts)\<rparr>]
                          else pts))"
proof -
  from calculate_trajectory_Inr [OF ret len] obtain nws pts where
    n: "normalize_waypoint_times wps s e = Inr nws"
    and nlen: "length nws = length wps"
    and run: "sample_loop nws e step s [] = Some (Inr pts)"
    and fin: "ensure_end nws e pts = Inr traj"
    by blast
  from nlen len have ne: "nws \<noteq> []" by auto
  from sample_loop_times [OF run step _ ne] se
  have pts: "pts \<noteq> []" "pt_time (hd pts) = s" "sorted_wrt (<) (map pt_time pts)"
    "\<forall>p \<in> set pts. pt_time p \<le> e"
    by auto
  have last_le: "pt_time p \<le> pt_time (last pts)" if "p \<in> set pts" for p
    using strict_sorted_le_last [OF pts(3) that] .
  from ensure_end_cases [OF fin] consider
    (plain) "traj = pts" "e \<le> pt_time (last pts)"
    | (synth) "pt_time (last pts) < e"
      "traj = pts @ [\<lparr>pt_time = e, pt_x = pt_x (last nws), pt_y = pt_y (last nws),
                 pt_z = pt_z (last nws), pt_speed = Some 0,
                 pt_heading = pt_heading (last pts)\<rparr>]"
    using pts(1) by blast
  then show ?thesis
  proof cases
    case plain
    moreover from pts(1,4) have "pt_time (last pts) \<le> e" by simp
    ultimately have "traj \<noteq> [] \<and> sorted (map pt_time traj) \<and> sorted_wrt (<) (map pt_time traj)
         \<and> s \<le> pt_time (hd traj) \<and> pt_time (last traj) = e"
      using pts strict_sorted_imp_sorted [OF pts(3)] by auto
    moreover from plain have "traj = (if pt_time (last pts) < e
                          then pts @ [\<lparr>pt_time = e, pt_x = pt_x (last nws),
                                       pt_y = pt_y (last nws), pt_z = pt_z (last nws),
                                       pt_speed = Some 0,
                                       pt_heading = pt_heading (last pts)\<rparr>]
                          else pts)"
      by simp
    ultimately show ?thesis using n run pts(1) by blast
  next
    case synth
    then have "\<forall>p \<in> set pts. pt_time p < e"
      using last_le by fastforce
    then have sw: "sorted_wrt (<) (map pt_time traj)"
      using pts(3) by (auto simp: synth(2) sorted_wrt_append)
    then have "sorted (map pt_time traj)"
      by (rule strict_sorted_imp_sorted)
    with sw pts(1,2) have "traj \<noteq> [] \<and> sorted (map pt_time traj) \<and> sorted_wrt (<) (map pt_time traj)
         \<and> s \<le> pt_time (hd traj) \<and> pt_time (last traj) = e"
      by (simp add: synth(2))
    moreover from synth have "traj = (if pt_time (last pts) < e
                          then pts @ [\<lparr>pt_time = e, pt_x = pt_x (last nws),
                                       pt_y = pt_y (last nws), pt_z = pt_z (last nws),
                                       pt_speed = Some 0,
                                       pt_heading = pt_heading (last pts)\<rparr>]
                          else pts)"
      by simp
    ultimately show ?thesis using n run pts(1) by blast
  qed
qed

theorem trajectory_time_ordering_witness:
  "calculate_trajectory example_waypoints 0 10 4 = Some (Inr example_trajectory)
   \<and> 2 \<le> length example_waypoints \<and> (0::real) < 10 \<and> (0::real) < 4
   \<and> map pt_time example_trajectory = [0, 4, 8, 10]
   \<and> example_trajectory \<noteq> [] \<and> sorted (map pt_time example_trajectory)
   \<and> sorted_wrt (<) (map pt_time example_trajectory)
   \<and> 0 \<le> pt_time (hd example_trajectory) \<and> pt_time (last example_trajectory) = 10
   \<and> (\<exists>nws pts. normalize_waypoint_times example_waypoints 0 10 = Inr nws
         \<and> sample_loop nws 10 4 0 [] = Some (Inr pts) \<and> pts \<noteq> []
         \<and> example_trajectory = (if pt_time (last pts) < 10
                          then pts @ [\<lparr>pt_time = 10, pt_x = pt_x (last nws),
                                       pt_y = pt_y (last nws), pt_z = pt_z (last nws),
                                       pt_speed = Some 0,
                                       pt_heading = pt_heading (last pts)\<rparr>]
                          else pts))"
proof -
  have len: "2 \<le> length example_waypoints"
    by (simp add: example_waypoints_def)
  have ts: "map pt_time example_trajectory = [0, 4, 8, 10]"
    by (simp add: example_trajectory_def)
  from trajectory_time_ordering [OF example_trajectory_eval len] example_trajectory_eval len ts
  show ?thesis by simp
qed

text \<open>
  C6. In a returned trajectory every point produced by the sampling loop carries a speed
  between 5 and 30; the trajectory is either exactly those points or those points followed
  by one final point at \<open>end_time\<close> with speed 0, appended because the last sample was
  strictly earlier. When no pair of consecutive normalized waypoints brackets the sample
  time, the speed is the default 15; otherwise it is the distance of the first bracketing
  segment of positive duration divided by that duration, clamped to the range from 5 to 30.
\<close>

theorem trajectory_speed_bounds:
  "(calculate_trajectory wps s e step = Some (Inr traj) \<longrightarrow>
      (\<exists>pts. (\<forall>q \<in> set pts. \<exists>v. pt_speed q = Some v \<and> 5 \<le> v \<and> v \<le> 30)
         \<and> (traj = pts
            \<or> (\<exists>final. traj = pts @ [final] \<and> pts \<noteq> [] \<and> pt_time (last pts) < e
                 \<and> pt_time final = e \<and> pt_speed final = Some 0))))
   \<and> (2 \<le> length nws
        \<and> (\<forall>j. Suc j < length nws \<longrightarrow>
               \<not> (pt_time (nws ! j) \<le> t \<and> t \<le> pt_time (nws ! Suc j))) \<longrightarrow>
      calculate_speed_at_time nws t = 15)
   \<and> (Suc i < length nws
        \<and> pt_time (nws ! i) \<le> t \<and> t \<le> pt_time (nws ! Suc i)
        \<and> pt_time (nws ! i) < pt_time (nws ! Suc i)
        \<and> (\<forall>j < i. \<not> (pt_time (nws ! j) \<le> t \<and> t \<le> pt_time (nws ! Suc j)
                      \<and> pt_time (nws ! j) < pt_time (nws ! Suc j))) \<longrightarrow>
      calculate_speed_at_time nws t =
        max 5 (min 30
          (sqrt ((pt_x (nws ! Suc i) - pt_x (nws ! i))\<^sup>2 + (pt_y (nws ! Suc i) - pt_y (nws ! i))\<^sup>2
                 + (pt_z (nws ! Suc i) - pt_z (nws ! i))\<^sup>2)
           / (pt_time (nws ! Suc i) - pt_time (nws ! i)))))"
proof (intro conjI impI)
  assume ret: "calculate_trajectory wps s e step = Some (Inr traj)"
  show "\<exists>pts. (\<forall>q \<in> set pts. \<exists>v. pt_speed q = Some v \<and> 5 \<le> v \<and> v \<le> 30)
         \<and> (traj = pts
            \<or> (\<exists>final. traj = pts @ [final] \<and> pts \<noteq> [] \<and> pt_time (last pts) < e
                 \<and> pt_time final = e \<and> pt_speed final = Some 0))"
  proof (cases "2 \<le> length wps")
    case False
    with ret have "traj = []" by (simp add: calculate_trajectory_def)
    then show ?thesis by (intro exI [of _ "[]"]) simp
  next
    case True
    from calculate_trajectory_Inr [OF ret True] obtain nws' pts where
      nlen: "length nws' = length wps"
      and run: "sample_loop nws' e step s [] = Some (Inr pts)"
      and fin: "ensure_end nws' e pts = Inr traj"
      by blast
    from nlen True have "2 \<le> length nws'" by simp
    from sample_loop_speeds [OF run this] ensure_end_cases [OF fin]
    show ?thesis by (intro exI [of _ pts]) auto
  qed
next
  assume a: "2 \<le> length nws
        \<and> (\<forall>j. Suc j < length nws \<longrightarrow>
               \<not> (pt_time (nws ! j) \<le> t \<and> t \<le> pt_time (nws ! Suc j)))"
  then have "speed_scan nws t = None" by (intro speed_scan_no_bracket) simp
  with a show "calculate_speed_at_time nws t = 15"
    by (simp add: calculate_speed_at_time_def default_speed_def)
next
  assume a: "Suc i < length nws
        \<and> pt_time (nws ! i) \<le> t \<and> t \<le> pt_time (nws ! Suc i)
        \<and> pt_time (nws ! i) < pt_time (nws ! Suc i)
        \<and> (\<forall>j < i. \<not> (pt_time (nws ! j) \<le> t \<and> t \<le> pt_time (nws ! Suc j)
                      \<and> pt_time (nws ! j) < pt_time (nws ! Suc j)))"
  then have "speed_scan nws t =
     Some (max 5 (min 30
       (sqrt ((pt_x (nws ! Suc i) - pt_x (nws ! i))\<^sup>2 + (pt_y (nws ! Suc i) - pt_y (nws ! i))\<^sup>2
              + (pt_z (nws ! Suc i) - pt_z (nws ! i))\<^sup>2)
        / (pt_time (nws ! Suc i) - pt_time (nws ! i)))))"
    by (intro speed_scan_first_bracket) simp_all
  moreover from a have "\<not> length nws < 2" by simp
  ultimately show "calculate_speed_at_time nws t =
        max 5 (min 30
          (sqrt ((pt_x (nws ! Suc i) - pt_x (nws ! i))\<^sup>2 + (pt_y (nws ! Suc i) - pt_y (nws ! i))\<^sup>2
                 + (pt_z (nws ! Suc i) - pt_z (nws ! i))\<^sup>2)
           / (pt_time (nws ! Suc i) - pt_time (nws ! i))))"
    by (simp add: calculate_speed_at_time_def)
qed

theorem trajectory_speed_bounds_witness:
  "calculate_trajectory example_waypoints 0 10 4 = Some (Inr example_trajectory)
   \<and> map pt_speed example_trajectory = [Some 15, Some 15, Some 20, Some 0]
   \<and> (\<exists>pts. list_all (\<lambda>q. \<exists>v. pt_speed q = Some v \<and> 5 \<le> v \<and> v \<le> 30) pts
         \<and> (\<exists>final. example_trajectory = pts @ [final] \<and> pts \<noteq> [] \<and> pt_time (last pts) < 10
                 \<and> pt_time final = 10 \<and> pt_speed final = Some 0))
   \<and> 2 \<le> length example_normalized
   \<and> \<not> (pt_time (example_normalized ! 0) \<le> 4 \<and> 4 \<le> pt_time (example_normalized ! Suc 0))
   \<and> calculate_speed_at_time example_normalized 4 = 15
   \<and> pt_time (example_normalized ! 0) \<le> 8 \<and> 8 \<le> pt_time (example_normalized ! Suc 0)
   \<and> pt_time (example_normalized ! 0) < pt_time (example_normalized ! Suc 0)
   \<and> calculate_speed_at_time example_normalized 8 = 20"
proof -
  have len: "length example_normalized = 2"
    by (simp add: example_normalized_def)
  have nb: "\<forall>j. Suc j < length example_normalized \<longrightarrow>
               \<not> (pt_time (example_normalized ! j) \<le> 4 \<and> 4 \<le> pt_time (example_normalized ! Suc j))"
    by (simp add: example_normalized_def)
  have br: "pt_time (example_normalized ! 0) \<le> 8" "8 \<le> pt_time (example_normalized ! Suc 0)"
    "pt_time (example_normalized ! 0) < pt_time (example_normalized ! Suc 0)"
    by (simp_all add: example_normalized_def)
  have last: "pt_speed (last example_trajectory) = Some 0"
    and speeds: "map pt_speed example_trajectory = [Some 15, Some 15, Some 20, Some 0]"
    by (simp_all add: example_trajectory_def)
  from trajectory_speed_bounds [of example_waypoints 0 10 4 example_trajectory example_normalized 4 0]
    example_trajectory_eval nb len
  have main: "(\<exists>pts. (\<forall>q \<in> set pts. \<exists>v. pt_speed q = Some v \<and> 5 \<le> v \<and> v \<le> 30)
         \<and> (example_trajectory = pts
            \<or> (\<exists>final. example_trajectory = pts @ [final] \<and> pts \<noteq> [] \<and> pt_time (last pts) < 10
                 \<and> pt_time final = 10 \<and> pt_speed final = Some 0)))"
    and d: "calculate_speed_at_time example_normalized 4 = 15"
    by simp_all
  from trajectory_speed_bounds [of example_waypoints 0 10 4 example_trajectory example_normalized 8 0]
    br len
  have "calculate_speed_at_time example_normalized 8 =
        max 5 (min 30
          (sqrt ((pt_x (example_normalized ! Suc 0) - pt_x (example_normalized ! 0))\<^sup>2
                 + (pt_y (example_normalized ! Suc 0) - pt_y (example_normalized ! 0))\<^sup>2
                 + (pt_z (example_normalized ! Suc 0) - pt_z (example_normalized ! 0))\<^sup>2)
           / (pt_time (example_normalized ! Suc 0) - pt_time (example_normalized ! 0))))"
    by simp
  then have f: "calculate_speed_at_time example_normalized 8 = 20"
    by (simp add: example_normalized_def sqrt_10000)
  from main obtain pts where
    sp: "\<forall>q \<in> set pts. \<exists>v. pt_speed q = Some v \<and> 5 \<le> v \<and> v \<le> 30"
    and alt: "example_trajectory = pts
            \<or> (\<exists>final. example_trajectory = pts @ [final] \<and> pts \<noteq> [] \<and> pt_time (last pts) < 10
                 \<and> pt_time final = 10 \<and> pt_speed final = Some 0)"
    by blast
  have "example_trajectory \<noteq> pts"
  proof
    assume "example_trajectory = pts"
    with sp have "\<exists>v. pt_speed (last example_trajectory) = Some v \<and> 5 \<le> v"
      by (auto simp: example_trajectory_def)
    with last show False by simp
  qed
  with alt sp have "\<exists>pts. list_all (\<lambda>q. \<exists>v. pt_speed q = Some v \<and> 5 \<le> v \<and> v \<le> 30) pts
         \<and> (\<exists>final. example_trajectory = pts @ [final] \<and> pts \<noteq> [] \<and> pt_time (last pts) < 10
                 \<and> pt_time final = 10 \<and> pt_speed final = Some 0)"
    by (auto simp: list_all_iff)
  with d f example_trajectory_eval len speeds br nb show ?thesis
    by simp
qed

text \<open>
  C1. The claim that \<open>calculate_trajectory\<close> completes without a raise on every input
  fails on the code. A waypoint list that passes \<open>validate_waypoints\<close> and whose largest
  raw time is 0 makes the normalization divide by zero, and a \<open>time_step\<close> of 0 keeps the
  sampling loop running for ever.
\<close>

theorem zero_max_time_raises:
  "validate_waypoints zero_time_waypoints
   \<and> max_raw_time zero_time_waypoints = 0
   \<and> calculate_trajectory zero_time_waypoints 0 10 5 = Some (Inl ZeroDivisionError)
   \<and> calculate_trajectory example_waypoints 0 10 0 = None"
proof (intro conjI)
  show "validate_waypoints zero_time_waypoints"
    by (simp add: validate_waypoints_def zero_time_waypoints_def)
  show "max_raw_time zero_time_waypoints = 0"
    by (simp add: max_raw_time_def zero_time_waypoints_def)
  have "normalize_waypoint_times zero_time_waypoints 0 10 = Inl ZeroDivisionError"
    by (simp add: normalize_waypoint_times_def normalize_explicit_wp_def getitem_def
        py_max_def py_div_def zero_time_waypoints_def)
  then show "calculate_trajectory zero_time_waypoints 0 10 5 = Some (Inl ZeroDivisionError)"
    by (simp add: calculate_trajectory_def zero_time_waypoints_def)
  show "calculate_trajectory example_waypoints 0 10 0 = None"
    by (rule calculate_trajectory_diverges [OF example_normalized_eval])
       (simp_all add: example_waypoints_def)
qed

section \<open>Claims on the deconfliction engine\<close>

text \<open>
  C2. \<open>check_conflicts\<close> always returns a report; every conflict in it has a distance
  strictly below the safety buffer of the call (and records that buffer), and \<open>is_safe\<close>
  holds exactly when the conflict list is empty. With no other flight the report is safe
  and has no conflict.
\<close>

theorem conflict_report_invariants:
  "(\<exists>r. check_conflicts p os sb = Inr r
        \<and> (\<forall>c \<in> set (conflicts r). c_distance c < sb \<and> c_safety_buffer c = sb)
        \<and> (is_safe r \<longleftrightarrow> conflicts r = []))
   \<and> (\<exists>r. check_conflicts p [] sb = Inr r \<and> is_safe r \<and> conflicts r = [])"
proof
  obtain r where r: "check_conflicts p os sb = Inr r"
    using check_conflicts_Inr by blast
  have "\<forall>c \<in> set (conflicts r). c_distance c < sb \<and> c_safety_buffer c = sb"
    using r by (rule check_conflicts_all) (auto dest: create_conflict_record_fields)
  moreover have "is_safe r \<longleftrightarrow> conflicts r = []"
    using check_conflicts_result [OF r] by auto
  ultimately show "\<exists>r. check_conflicts p os sb = Inr r
        \<and> (\<forall>c \<in> set (conflicts r). c_distance c < sb \<and> c_safety_buffer c = sb)
        \<and> (is_safe r \<longleftrightarrow> conflicts r = [])"
    using r by blast
  show "\<exists>r. check_conflicts p [] sb = Inr r \<and> is_safe r \<and> conflicts r = []"
    by (simp add: check_conflicts_def Let_def)
qed

theorem conflict_report_invariants_witness:
  "check_conflicts example_primary [example_other] 50 = Inr example_report
   \<and> conflicts example_report = [example_conflict]
   \<and> c_distance example_conflict < 50 \<and> c_safety_buffer example_conflict = 50
   \<and> \<not> is_safe example_report
   \<and> (\<exists>r. check_conflicts example_primary [] 50 = Inr r \<and> is_safe r \<and> conflicts r = [])"
  using conflict_report_invariants [of example_primary "[example_other]" 50]
  by (simp add: example_report_eval) (simp add: example_report_def)

text \<open>
  C5. Every conflict of a report has \<open>severity_score = max(0, (safety_buffer - distance) /
  safety_buffer)\<close> and severity HIGH when the distance is below \<open>safety_buffer * 0.5\<close>,
  MEDIUM when it is not but is below \<open>safety_buffer * 0.8\<close>, LOW otherwise, the two
  products being the float products that the program computes. A record built by
  \<open>_create_conflict_record\<close> has score exactly 0 when the distance equals the buffer and
  exactly 1 when the distance is 0. The literal \<open>0.5\<close> is one half and the product with it
  is exactly half of a buffer that is a float above the lowest binade; the literal \<open>0.8\<close>
  is the float nearest to four fifths and the product with it lies within half a unit in
  the last place of the exact product.
\<close>

theorem conflict_severity:
  "(check_conflicts p os sb = Inr r \<and> c \<in> set (conflicts r) \<longrightarrow>
      c_severity_score c = max 0 ((sb - c_distance c) / sb)
      \<and> c_severity c = (if c_distance c < float_mul sb float_0_5 then ''HIGH''
                         else if c_distance c < float_mul sb float_0_8 then ''MEDIUM''
                         else ''LOW''))
   \<and> (create_conflict_record pp op t d fid sb = Inr c' \<longrightarrow>
      c_severity_score c' = max 0 ((sb - d) / sb)
      \<and> (d = sb \<longrightarrow> c_severity_score c' = 0)
      \<and> (d = 0 \<longrightarrow> c_severity_score c' = 1))
   \<and> float_0_5 = 1 / 2
   \<and> float_0_8 = 3602879701896397 / 4503599627370496
   \<and> (round_float sb = sb \<and> - 1022 < float_exponent sb \<longrightarrow>
        float_mul sb float_0_5 = 0.5 * sb)
   \<and> \<bar>float_mul sb float_0_8 - sb * float_0_8\<bar> \<le> float_ulp (sb * float_0_8) / 2"
proof (intro conjI impI)
  assume a: "check_conflicts p os sb = Inr r \<and> c \<in> set (conflicts r)"
  then have run: "check_conflicts p os sb = Inr r" and c: "c \<in> set (conflicts r)"
    by simp_all
  let ?P = "\<lambda>c. sb \<noteq> 0 \<and> c_severity_score c = max 0 ((sb - c_distance c) / sb)
      \<and> c_severity c = (if c_distance c < float_mul sb float_0_5 then ''HIGH''
                         else if c_distance c < float_mul sb float_0_8 then ''MEDIUM''
                         else ''LOW'')"
  have "\<forall>c \<in> set (conflicts r). ?P c"
    using run
  proof (rule check_conflicts_all)
    fix pp op t d fid c
    assume "create_conflict_record pp op t d fid sb = Inr c"
    from create_conflict_record_fields [OF this] show "?P c" by simp
  qed
  with c have P: "?P c" by blast
  from P show "c_severity_score c = max 0 ((sb - c_distance c) / sb)" by simp
  from P show "c_severity c = (if c_distance c < float_mul sb float_0_5 then ''HIGH''
                         else if c_distance c < float_mul sb float_0_8 then ''MEDIUM''
                         else ''LOW'')" by simp
next
  assume r: "create_conflict_record pp op t d fid sb = Inr c'"
  from create_conflict_record_fields [OF r]
  show "c_severity_score c' = max 0 ((sb - d) / sb)" by simp
  assume "d = sb"
  with create_conflict_record_fields [OF r] show "c_severity_score c' = 0" by simp
next
  assume r: "create_conflict_record pp op t d fid sb = Inr c'" and "d = 0"
  with create_conflict_record_fields [OF r] show "c_severity_score c' = 1" by simp
next
  show "float_0_5 = 1 / 2" by (rule float_0_5_value)
  show "float_0_8 = 3602879701896397 / 4503599627370496" by (rule float_0_8_value)
  show "\<bar>float_mul sb float_0_8 - sb * float_0_8\<bar> \<le> float_ulp (sb * float_0_8) / 2"
    by (rule float_mul_error)
next
  assume "round_float sb = sb \<and> - 1022 < float_exponent sb"
  then show "float_mul sb float_0_5 = 0.5 * sb"
    using float_mul_half [of sb] by simp
qed

theorem conflict_severity_witness:
  "check_conflicts example_primary [example_other] 50 = Inr example_report
   \<and> example_conflict \<in> set (conflicts example_report)
   \<and> c_distance example_conflict = 5
   \<and> c_severity_score example_conflict = max 0 ((50 - 5) / 50)
   \<and> float_mul 50 float_0_5 = 25
   \<and> c_severity example_conflict = ''HIGH''
   \<and> check_conflicts boundary_primary [boundary_other] 43 = Inr boundary_report
   \<and> boundary_conflict \<in> set (conflicts boundary_report)
   \<and> c_distance boundary_conflict = 4841369599423283 / 140737488355328
   \<and> float_mul 43 float_0_5 = 43 / 2
   \<and> float_mul 43 float_0_8 = 4841369599423283 / 140737488355328
   \<and> c_distance boundary_conflict < 4 / 5 * 43
   \<and> c_severity boundary_conflict = ''LOW''
   \<and> (\<exists>c'. create_conflict_record (hd example_primary) (hd example_primary) 110 50 ''UAV_002'' 50
              = Inr c' \<and> c_severity_score c' = 0)
   \<and> (\<exists>c'. create_conflict_record (hd example_primary) (hd example_primary) 110 0 ''UAV_002'' 50
              = Inr c' \<and> c_severity_score c' = 1)
   \<and> round_float 50 = 50 \<and> - 1022 < float_exponent 50
   \<and> float_mul 50 float_0_5 = 0.5 * 50"
proof -
  have mem: "example_conflict \<in> set (conflicts example_report)"
    "boundary_conflict \<in> set (conflicts boundary_report)"
    by (simp_all add: example_report_def boundary_report_def)
  obtain c1 where c1: "create_conflict_record (hd example_primary) (hd example_primary) 110 50
      ''UAV_002'' 50 = Inr c1"
    using create_conflict_record_Inr [of 50] by fastforce
  obtain c2 where c2: "create_conflict_record (hd example_primary) (hd example_primary) 110 0
      ''UAV_002'' 50 = Inr c2"
    using create_conflict_record_Inr [of 50] by fastforce
  note w1 = conflict_severity [of example_primary "[example_other]" 50 example_report
      example_conflict "hd example_primary" "hd example_primary" 110 50 "''UAV_002''" c1]
  note w2 = conflict_severity [of example_primary "[example_other]" 50 example_report
      example_conflict "hd example_primary" "hd example_primary" 110 0 "''UAV_002''" c2]
  note w3 = conflict_severity [of boundary_primary "[boundary_other]" 43 boundary_report
      boundary_conflict "hd example_primary" "hd example_primary" 110 0 "''UAV_002''" c2]
  from w1 example_report_eval mem(1) c1
  have s1: "c_severity_score example_conflict = max 0 ((50 - c_distance example_conflict) / 50)"
    and h1: "c_severity example_conflict =
       (if c_distance example_conflict < float_mul 50 float_0_5 then ''HIGH''
        else if c_distance example_conflict < float_mul 50 float_0_8 then ''MEDIUM'' else ''LOW'')"
    and z1: "c_severity_score c1 = 0"
    and half: "float_mul 50 float_0_5 = 0.5 * 50"
    using float_50 by simp_all
  from w2 c2 have z2: "c_severity_score c2 = 1" by simp
  from w3 boundary_report_eval mem(2)
  have h3: "c_severity boundary_conflict =
       (if c_distance boundary_conflict < float_mul 43 float_0_5 then ''HIGH''
        else if c_distance boundary_conflict < float_mul 43 float_0_8 then ''MEDIUM'' else ''LOW'')"
    by simp
  have d1: "c_distance example_conflict = 5"
    by (simp add: example_conflict_def)
  have d3: "c_distance boundary_conflict = 4841369599423283 / 140737488355328"
    by (simp add: boundary_conflict_def float_34_4_value)
  from h1 d1 have sev1: "c_severity example_conflict = ''HIGH''"
    by (simp add: float_mul_50_half)
  from h3 d3 have sev3: "c_severity boundary_conflict = ''LOW''"
    by (simp add: float_mul_43_half float_mul_43_0_8)
  from s1 d1 have sc1: "c_severity_score example_conflict = max 0 ((50 - 5) / 50)"
    by simp
  have lt: "c_distance boundary_conflict < 4 / 5 * 43"
    by (simp add: d3)
  from example_report_eval boundary_report_eval mem d1 d3 sc1 sev1 sev3 lt
    float_mul_50_half float_mul_43_half float_mul_43_0_8 c1 c2 z1 z2 float_50 half
  show ?thesis by simp
qed

text \<open>
  C8. Every conflict of a report has type \<open>spatial\<close>; the summary counts no temporal
  violation, and its spatial violations equal the number of conflicts.
\<close>

theorem conflict_type_spatial:
  "\<exists>r. check_conflicts p os sb = Inr r
        \<and> (\<forall>c \<in> set (conflicts r). c_type c = ''spatial'')
        \<and> temporal_violations (summary r) = 0
        \<and> spatial_violations (summary r) = length (conflicts r)
        \<and> total_conflicts r = length (conflicts r)"
proof -
  obtain r where r: "check_conflicts p os sb = Inr r"
    using check_conflicts_Inr by blast
  from check_conflicts_result [OF r] obtain cs n where
    l: "check_loop p sb os ([], 0) = Inr (cs, n)"
    and c: "conflicts r = sort_key (\<lambda>c. (c_severity_score c, c_time c)) cs"
    and s: "summary r = fold classify cs \<lparr>total_checks = n, spatial_violations = 0,
                 temporal_violations = 0, safe_segments = 0\<rparr>"
    and t: "total_conflicts r = length (conflicts r)"
    by blast
  have sp: "\<forall>c \<in> set (conflicts r). c_type c = ''spatial''"
    using r by (rule check_conflicts_all) (auto dest: create_conflict_record_fields)
  then have "\<forall>c \<in> set cs. c_type c = ''spatial''"
    by (simp add: c)
  from fold_classify_spatial [OF this] s
  have "temporal_violations (summary r) = 0" "spatial_violations (summary r) = length (conflicts r)"
    by (simp_all add: c)
  with r sp t show ?thesis by blast
qed

theorem conflict_type_spatial_witness:
  "check_conflicts example_primary [example_other] 50 = Inr example_report
   \<and> conflicts example_report = [example_conflict]
   \<and> c_type example_conflict = ''spatial''
   \<and> temporal_violations (summary example_report) = 0
   \<and> spatial_violations (summary example_report) = 1
   \<and> total_conflicts example_report = 1"
  using conflict_type_spatial [of example_primary "[example_other]" 50]
  by (simp add: example_report_eval) (simp add: example_report_def)

text \<open>
  C9. The summary's \<open>total_checks\<close> is the sum, over the other flights, of the product of
  the two sample counts. It is not in general the number of merged time instants: the
  worked check counts 4 for 2 instants.
\<close>

theorem total_checks_product:
  "(\<exists>r. check_conflicts p os sb = Inr r
        \<and> total_checks (summary r) = (\<Sum>f\<leftarrow>os. length p * length (trajectory f)))
   \<and> (\<exists>p' os' sb' r'. check_conflicts p' os' sb' = Inr r'
        \<and> total_checks (summary r') \<noteq> (\<Sum>f\<leftarrow>os'. length (all_times p' (trajectory f))))"
proof
  obtain r where r: "check_conflicts p os sb = Inr r"
    using check_conflicts_Inr by blast
  from check_conflicts_result [OF r] obtain cs n where
    l: "check_loop p sb os ([], 0) = Inr (cs, n)"
    and c: "conflicts r = sort_key (\<lambda>c. (c_severity_score c, c_time c)) cs"
    and s: "summary r = fold classify cs \<lparr>total_checks = n, spatial_violations = 0,
                 temporal_violations = 0, safe_segments = 0\<rparr>"
    by blast
  have "\<forall>c \<in> set (conflicts r). c_type c = ''spatial''"
    using r by (rule check_conflicts_all) (auto dest: create_conflict_record_fields)
  then have "\<forall>c \<in> set cs. c_type c = ''spatial''"
    by (simp add: c)
  from fold_classify_spatial [OF this] s have "total_checks (summary r) = n"
    by simp
  moreover have "(\<forall>c \<in> set cs. True) \<and> n = 0 + (\<Sum>f\<leftarrow>os. length p * length (trajectory f))"
    by (rule check_loop_result [OF l]) simp_all
  ultimately show "\<exists>r. check_conflicts p os sb = Inr r
        \<and> total_checks (summary r) = (\<Sum>f\<leftarrow>os. length p * length (trajectory f))"
    using r by auto
  have "total_checks (summary example_report)
          \<noteq> (\<Sum>f\<leftarrow>[example_other]. length (all_times example_primary (trajectory f)))"
    by (simp add: example_all_times example_report_def)
  with example_report_eval
  show "\<exists>p' os' sb' r'. check_conflicts p' os' sb' = Inr r'
        \<and> total_checks (summary r') \<noteq> (\<Sum>f\<leftarrow>os'. length (all_times p' (trajectory f)))"
    by blast
qed

text \<open>
  C10. On a non-empty trajectory the position lookup returns a position at every target
  time, and \<open>None\<close> exactly on the empty trajectory. The position is the first sample at the
  target time if there is one; otherwise the linear interpolation, by time fraction, between
  the nearest earlier and the nearest later sample if both exist; otherwise the nearest
  sample of the one side that exists. The merged instants are the sample times of both
  trajectories, sorted and without repetition. When both trajectories passed to
  \<open>_detect_trajectory_conflicts\<close> are non-empty, both positions resolve at every merged
  instant and the distance is compared with the buffer there: the conflicts returned for
  that instant are exactly one record when the distance is below the buffer and none
  otherwise. When one trajectory is empty every instant is skipped and no conflict is
  returned.
\<close>

theorem position_lookup_defined:
  "(traj \<noteq> [] \<longrightarrow> (\<exists>pos. get_position_at_time traj t = Inr (Some pos)))
   \<and> (get_position_at_time traj t = Inr None \<longleftrightarrow> traj = [])
   \<and> (\<forall>p. find (\<lambda>q. pt_time q = t) traj = Some p \<longrightarrow>
          get_position_at_time traj t = Inr (Some p))
   \<and> ((\<forall>q \<in> set traj. pt_time q \<noteq> t) \<longrightarrow>
        ((\<exists>q \<in> set traj. pt_time q < t) \<and> (\<exists>q \<in> set traj. t < pt_time q) \<longrightarrow>
            (\<exists>b a. nearest_earlier traj t b \<and> nearest_later traj t a
               \<and> get_position_at_time traj t =
                   Inr (Some \<lparr>pt_time = t,
                     pt_x = pt_x b + ((t - pt_time b) / (pt_time a - pt_time b)) * (pt_x a - pt_x b),
                     pt_y = pt_y b + ((t - pt_time b) / (pt_time a - pt_time b)) * (pt_y a - pt_y b),
                     pt_z = pt_z b + ((t - pt_time b) / (pt_time a - pt_time b)) * (pt_z a - pt_z b),
                     pt_speed = None, pt_heading = None\<rparr>)))
        \<and> ((\<exists>q \<in> set traj. pt_time q < t) \<and> \<not> (\<exists>q \<in> set traj. t < pt_time q) \<longrightarrow>
            (\<exists>b. nearest_earlier traj t b \<and> get_position_at_time traj t = Inr (Some b)))
        \<and> (\<not> (\<exists>q \<in> set traj. pt_time q < t) \<and> (\<exists>q \<in> set traj. t < pt_time q) \<longrightarrow>
            (\<exists>a. nearest_later traj t a \<and> get_position_at_time traj t = Inr (Some a))))
   \<and> set (all_times primary other) = pt_time ` set primary \<union> pt_time ` set other
   \<and> sorted (all_times primary other) \<and> distinct (all_times primary other)
   \<and> (primary \<noteq> [] \<and> other \<noteq> [] \<longrightarrow>
        (\<exists>cs. detect_trajectory_conflicts primary other fid sb = Inr cs
           \<and> (\<forall>tp \<in> set (all_times primary other).
                \<exists>pp op. get_position_at_time primary tp = Inr (Some pp)
                  \<and> get_position_at_time other tp = Inr (Some op)
                  \<and> check_instant primary other fid sb tp =
                      (if calculate_distance_3d pp op < sb
                       then bind_err (create_conflict_record pp op tp (calculate_distance_3d pp op)
                                        fid sb) (\<lambda>c. Inr [c])
                       else Inr [])
                  \<and> (if calculate_distance_3d pp op < sb
                      then (\<exists>c. create_conflict_record pp op tp (calculate_distance_3d pp op)
                                   fid sb = Inr c
                              \<and> filter (\<lambda>c'. c_time c' = tp) cs = [c])
                      else filter (\<lambda>c'. c_time c' = tp) cs = []))))
   \<and> detect_trajectory_conflicts primary [] fid sb = Inr []
   \<and> detect_trajectory_conflicts [] other fid sb = Inr []"
proof -
  have c1: "traj \<noteq> [] \<longrightarrow> (\<exists>pos. get_position_at_time traj t = Inr (Some pos))"
    by (auto intro: get_position_at_time_nonempty)
  have c2: "get_position_at_time traj t = Inr None \<longleftrightarrow> traj = []"
    using get_position_at_time_nonempty [of traj t] get_position_at_time_empty [of t]
    by (cases "traj = []") auto
  have c3: "\<forall>p. find (\<lambda>q. pt_time q = t) traj = Some p \<longrightarrow>
          get_position_at_time traj t = Inr (Some p)"
    by (auto intro: get_position_at_time_exact)
  note c4 = get_position_at_time_routes [of traj t]
  note c5 = all_times_spec [of primary other]
  have c6: "\<exists>cs. detect_trajectory_conflicts primary other fid sb = Inr cs
           \<and> (\<forall>tp \<in> set (all_times primary other).
                \<exists>pp op. get_position_at_time primary tp = Inr (Some pp)
                  \<and> get_position_at_time other tp = Inr (Some op)
                  \<and> check_instant primary other fid sb tp =
                      (if calculate_distance_3d pp op < sb
                       then bind_err (create_conflict_record pp op tp (calculate_distance_3d pp op)
                                        fid sb) (\<lambda>c. Inr [c])
                       else Inr [])
                  \<and> (if calculate_distance_3d pp op < sb
                      then (\<exists>c. create_conflict_record pp op tp (calculate_distance_3d pp op)
                                   fid sb = Inr c
                              \<and> filter (\<lambda>c'. c_time c' = tp) cs = [c])
                      else filter (\<lambda>c'. c_time c' = tp) cs = []))"
    if ne: "primary \<noteq> [] \<and> other \<noteq> []"
  proof -
    obtain cs where cs: "detect_trajectory_conflicts primary other fid sb = Inr cs"
      using detect_trajectory_conflicts_Inr by blast
    have "\<exists>pp op. get_position_at_time primary tp = Inr (Some pp)
                  \<and> get_position_at_time other tp = Inr (Some op)
                  \<and> check_instant primary other fid sb tp =
                      (if calculate_distance_3d pp op < sb
                       then bind_err (create_conflict_record pp op tp (calculate_distance_3d pp op)
                                        fid sb) (\<lambda>c. Inr [c])
                       else Inr [])
                  \<and> (if calculate_distance_3d pp op < sb
                      then (\<exists>c. create_conflict_record pp op tp (calculate_distance_3d pp op)
                                   fid sb = Inr c
                              \<and> filter (\<lambda>c'. c_time c' = tp) cs = [c])
                      else filter (\<lambda>c'. c_time c' = tp) cs = [])"
      if tp: "tp \<in> set (all_times primary other)" for tp
    proof -
      from ne obtain pp op where pos: "get_position_at_time primary tp = Inr (Some pp)"
        "get_position_at_time other tp = Inr (Some op)"
        using get_position_at_time_nonempty by blast
      then have ci: "check_instant primary other fid sb tp =
                      (if calculate_distance_3d pp op < sb
                       then bind_err (create_conflict_record pp op tp (calculate_distance_3d pp op)
                                        fid sb) (\<lambda>c. Inr [c])
                       else Inr [])"
        by (simp add: check_instant_def Let_def)
      obtain ys where ys: "check_instant primary other fid sb tp = Inr ys"
        using check_instant_Inr by blast
      note fl = detect_trajectory_conflicts_instant [OF cs tp ys]
      have "if calculate_distance_3d pp op < sb
                      then (\<exists>c. create_conflict_record pp op tp (calculate_distance_3d pp op)
                                   fid sb = Inr c
                              \<and> filter (\<lambda>c'. c_time c' = tp) cs = [c])
                      else filter (\<lambda>c'. c_time c' = tp) cs = []"
        using ys ci fl by (auto simp: bind_err_eq_Inr split: if_splits)
      with pos ci show ?thesis by blast
    qed
    with cs show ?thesis by blast
  qed
  note c7 = detect_trajectory_conflicts_empty [of primary fid sb]
    detect_trajectory_conflicts_empty(2) [of other fid sb]
  from c1 c2 c3 c4 c5 c6 c7 show ?thesis by blast
qed

theorem position_lookup_defined_witness:
  "example_primary \<noteq> [] \<and> trajectory example_other \<noteq> []
   \<and> find (\<lambda>q. pt_time q = 110) example_primary = Some (hd example_primary)
   \<and> get_position_at_time example_primary 110 = Inr (Some (hd example_primary))
   \<and> list_all (\<lambda>q. pt_time q \<noteq> 115) example_primary
   \<and> list_ex (\<lambda>q. pt_time q < 115) example_primary
   \<and> list_ex (\<lambda>q. 115 < pt_time q) example_primary
   \<and> get_position_at_time example_primary 115 =
        Inr (Some \<lparr>pt_time = 115, pt_x = 50, pt_y = 50, pt_z = 110,
                   pt_speed = None, pt_heading = None\<rparr>)
   \<and> get_position_at_time example_primary 130 = Inr (Some (last example_primary))
   \<and> get_position_at_time example_primary 100 = Inr (Some (hd example_primary))
   \<and> all_times example_primary (trajectory example_other) = [110, 120]
   \<and> detect_trajectory_conflicts example_primary (trajectory example_other) ''UAV_002'' 50
        = Inr [example_conflict]
   \<and> filter (\<lambda>c. c_time c = 120) [example_conflict] = [example_conflict]
   \<and> filter (\<lambda>c. c_time c = 110) [example_conflict] = []"
proof -
  have ne: "example_primary \<noteq> []" "trajectory example_other \<noteq> []"
    by (simp_all add: example_primary_def example_other_def)
  have ex: "find (\<lambda>q. pt_time q = 110) example_primary = Some (hd example_primary)"
    by (simp add: example_primary_def)
  have no: "\<forall>q \<in> set example_primary. pt_time q \<noteq> 115"
    and lo: "\<exists>q \<in> set example_primary. pt_time q < 115"
    and hi: "\<exists>q \<in> set example_primary. 115 < pt_time q"
    by (simp_all add: example_primary_def)
  note at110 = position_lookup_defined [of example_primary 110 example_primary
      "trajectory example_other" "''UAV_002''" 50]
  note at115 = position_lookup_defined [of example_primary 115 example_primary
      "trajectory example_other" "''UAV_002''" 50]
  from at110 ex have v110: "get_position_at_time example_primary 110 = Inr (Some (hd example_primary))"
    by blast
  from at115 no lo hi obtain b a where
    b: "nearest_earlier example_primary 115 b" and a: "nearest_later example_primary 115 a"
    and v: "get_position_at_time example_primary 115 =
                   Inr (Some \<lparr>pt_time = 115,
                     pt_x = pt_x b + ((115 - pt_time b) / (pt_time a - pt_time b)) * (pt_x a - pt_x b),
                     pt_y = pt_y b + ((115 - pt_time b) / (pt_time a - pt_time b)) * (pt_y a - pt_y b),
                     pt_z = pt_z b + ((115 - pt_time b) / (pt_time a - pt_time b)) * (pt_z a - pt_z b),
                     pt_speed = None, pt_heading = None\<rparr>)"
    by blast
  from b have b': "b = hd example_primary"
    by (auto simp: nearest_earlier_def example_primary_def split: if_splits)
  from a have a': "a = last example_primary"
    by (auto simp: nearest_later_def example_primary_def split: if_splits)
  from v have v115: "get_position_at_time example_primary 115 =
        Inr (Some \<lparr>pt_time = 115, pt_x = 50, pt_y = 50, pt_z = 110,
                   pt_speed = None, pt_heading = None\<rparr>)"
    by (simp add: a' b' example_primary_def)
  have det: "detect_trajectory_conflicts example_primary (trajectory example_other) ''UAV_002'' 50
        = Inr [example_conflict]"
    using example_detect by (simp add: example_other_def)
  have fl: "filter (\<lambda>c. c_time c = 120) [example_conflict] = [example_conflict]"
    "filter (\<lambda>c. c_time c = 110) [example_conflict] = []"
    by (simp_all add: example_conflict_def)
  from ne ex v110 no lo hi v115 example_lookups(3,4) example_all_times det fl
  show ?thesis by (simp add: list_all_iff list_ex_iff)
qed

end
